theory Spec2Isabelle
  imports Complex_Main "HOL-Library.Char_ord" "HOL-Library.List_Lexorder"
    "HOL-Library.Product_Lexorder"
begin

section \<open>The multi-store forecast manager (script_4.py)\<close>

text \<open>
  A shallow embedding of class \<open>MultiStoreForecastManager\<close>. Conventions:
  \<^item> Python \<open>int\<close> is \<open>int\<close>; a finite Python \<open>float\<close> is a \<open>real\<close> and arithmetic on
    finite floats is exact (no rounding), but a result too large for a float is an
    infinity, with the exceptions that follow from it;
  \<^item> a raised exception is the \<open>Inl\<close> of a sum type;
  \<^item> the wall clock (\<open>datetime.now()\<close>), the locale of the process and the global
    generator \<open>np.random\<close> are explicit inputs;
  \<^item> a string is the list of the bytes of its UTF-8 encoding; the literals of the
    source written in Cyrillic are given by their character codes, under transliterated
    names; the three priority literals are the constructors of a datatype;
  \<^item> calls to \<open>logger\<close> are not modelled.
\<close>

subsection \<open>Exceptions\<close>

datatype message =
  Store_not_found string | Missing_required_field string | Cannot_convert_NaN

datatype error = ValueError message | KeyError string | OverflowError

subsection \<open>Dates (the part of \<open>datetime\<close> the manager uses)\<close>

text \<open>
  Only the calendar date of a \<open>datetime\<close> is ever read (month, weekday, formatting by
  day), and adding \<open>timedelta(days=k)\<close> leaves the time of day alone, so a \<open>datetime\<close> is
  modelled by its date. The functions follow CPython's \<open>datetime\<close> module: proleptic
  Gregorian ordinals with 0001-01-01 as day 1 and 9999-12-31 (ordinal 3652059) as the
  last date.
\<close>

record date =
  year :: int
  month :: int
  day :: int

definition is_leap :: "int \<Rightarrow> bool" where
  "is_leap y = (y mod 4 = 0 \<and> (y mod 100 \<noteq> 0 \<or> y mod 400 = 0))"

definition days_in_month_of :: "bool \<Rightarrow> int \<Rightarrow> int" where
  "days_in_month_of leap m =
     (if m = 2 then (if leap then 29 else 28)
      else if m = 4 \<or> m = 6 \<or> m = 9 \<or> m = 11 then 30 else 31)"

definition days_before_month_of :: "bool \<Rightarrow> int \<Rightarrow> int" where
  "days_before_month_of leap m =
     ([0, 31, 59, 90, 120, 151, 181, 212, 243, 273, 304, 334] ! nat (m - 1))
       + (if 2 < m \<and> leap then 1 else 0)"

definition days_in_month :: "int \<Rightarrow> int \<Rightarrow> int" where
  "days_in_month y m = days_in_month_of (is_leap y) m"

definition days_before_month :: "int \<Rightarrow> int \<Rightarrow> int" where
  "days_before_month y m = days_before_month_of (is_leap y) m"

definition days_before_year :: "int \<Rightarrow> int" where
  "days_before_year y =
     (let z = y - 1 in z * 365 + z div 4 - z div 100 + z div 400)"

definition valid_date :: "date \<Rightarrow> bool" where
  "valid_date d \<longleftrightarrow>
     1 \<le> year d \<and> year d \<le> 9999 \<and> 1 \<le> month d \<and> month d \<le> 12 \<and>
     1 \<le> day d \<and> day d \<le> days_in_month (year d) (month d)"

definition toordinal :: "date \<Rightarrow> int" where
  "toordinal d = days_before_year (year d) + days_before_month (year d) (month d) + day d"

definition max_ordinal :: int where
  "max_ordinal = 3652059"

definition fromordinal :: "int \<Rightarrow> date" where
  "fromordinal n0 =
     (let n = n0 - 1;
          n400 = n div 146097; n = n mod 146097;
          n100 = n div 36524; n = n mod 36524;
          n4 = n div 1461; n = n mod 1461;
          n1 = n div 365; n = n mod 365;
          y = n400 * 400 + 1 + n100 * 100 + n4 * 4 + n1
      in if n1 = 4 \<or> n100 = 4 then \<lparr>year = y - 1, month = 12, day = 31\<rparr>
         else
           let leapyear = (n1 = 3 \<and> (n4 \<noteq> 24 \<or> n100 = 3));
               m = (n + 50) div 32;
               preceding = days_before_month_of leapyear m
           in if n < preceding
              then \<lparr>year = y, month = m - 1,
                     day = n - (preceding - days_in_month_of leapyear (m - 1)) + 1\<rparr>
              else \<lparr>year = y, month = m, day = n - preceding + 1\<rparr>)"

text \<open>\<open>d + timedelta(days=k)\<close>: raises \<open>OverflowError\<close> outside 0001-01-01 .. 9999-12-31.\<close>

definition add_days :: "date \<Rightarrow> int \<Rightarrow> error + date" where
  "add_days d k =
     (let n = toordinal d + k
      in if 1 \<le> n \<and> n \<le> max_ordinal then Inr (fromordinal n) else Inl OverflowError)"

text \<open>\<open>date.weekday()\<close>: Monday is 0, Sunday is 6.\<close>

definition weekday :: "date \<Rightarrow> int" where
  "weekday d = (toordinal d + 6) mod 7"

definition digit :: "int \<Rightarrow> char" where
  "digit n = ''0123456789'' ! nat n"

text \<open>
  The two-digit fields \<open>%m\<close> and \<open>%d\<close> of \<open>strftime\<close>, and \<open>%Y\<close> for the years of a
  date, 1 to 9999, as the C library of Linux renders it: without padding.
\<close>

definition pad2 :: "int \<Rightarrow> string" where
  "pad2 n = [digit (n div 10), digit (n mod 10)]"

definition strftime_Y :: "int \<Rightarrow> string" where
  "strftime_Y y =
     (if y < 10 then [digit y]
      else if y < 100 then pad2 y
      else if y < 1000 then digit (y div 100) # pad2 (y mod 100)
      else pad2 (y div 100) @ pad2 (y mod 100))"

definition strftime_md :: "date \<Rightarrow> string" where
  "strftime_md d = pad2 (month d) @ ''-'' @ pad2 (day d)"

definition strftime_ymd :: "date \<Rightarrow> string" where
  "strftime_ymd d = strftime_Y (year d) @ ''-'' @ pad2 (month d) @ ''-'' @ pad2 (day d)"

text \<open>
  What a forecast reads from its environment besides the generator: the clock, \<open>now k\<close>
  being what \<open>datetime.now()\<close> returns in the pass of the day loop for day number \<open>k\<close>,
  and the locale of the process, of which \<open>strftime('%A')\<close> uses the full weekday names:
  \<open>day_name w\<close> is the name of weekday \<open>w\<close>. \<open>c_day_name\<close> gives the names of the C locale,
  in which a Python process starts.
\<close>

record env =
  now :: "nat \<Rightarrow> date"
  day_name :: "int \<Rightarrow> string"

definition c_day_name :: "int \<Rightarrow> string" where
  "c_day_name w =
     [''Monday'', ''Tuesday'', ''Wednesday'', ''Thursday'', ''Friday'', ''Saturday'',
      ''Sunday''] ! nat w"

definition strftime_A :: "env \<Rightarrow> date \<Rightarrow> string" where
  "strftime_A env d = day_name env (weekday d)"

subsection \<open>Store configurations and the manager\<close>

text \<open>
  A store configuration is a Python dict with a fixed vocabulary of keys; a key that is
  absent from the dict is \<open>None\<close> here, so \<open>k in cfg\<close> is \<open>k cfg \<noteq> None\<close>, \<open>cfg[k]\<close>
  raises \<open>KeyError\<close> on \<open>None\<close>, and \<open>cfg.get(k, v)\<close> is \<open>get (k cfg) v\<close>. The two
  multiplier tables are dicts from strings to floats, kept as association lists.
\<close>

record store_config =
  name :: "string option"
  address :: "string option"
  type :: "string option"
  size_category :: "string option"
  opening_hours :: "(string \<times> string) list option"
  target_audience :: "string option"
  avg_daily_visitors :: "int option"
  seasonal_multipliers :: "(string \<times> real) list option"
  holiday_multipliers :: "(string \<times> real) list option"
  weather_sensitivity :: "real option"
  forecast_horizon_days :: "int option"
  safety_stock_ratio :: "real option"
  active :: "bool option"

definition get :: "'a option \<Rightarrow> 'a \<Rightarrow> 'a" where
  "get x v = (case x of None \<Rightarrow> v | Some y \<Rightarrow> y)"

definition subscript :: "string \<Rightarrow> 'a option \<Rightarrow> error + 'a" where
  "subscript k x = (case x of None \<Rightarrow> Inl (KeyError k) | Some y \<Rightarrow> Inr y)"

text \<open>
  Dict objects have identity: the object store \<open>heap\<close> maps a reference to the dict it
  denotes, and \<open>stores\<close> (\<open>self.stores_config['stores']\<close>, a dict in insertion order) maps
  a store id to a reference. \<open>saved\<close> is what \<open>_save_config\<close> last wrote to
  \<open>stores_config.json\<close>, and \<open>writable\<close> says whether opening that file for writing
  succeeds. The \<open>global_settings\<close> of the configuration are never read and are left out.
\<close>

type_synonym ref = nat

record manager =
  heap :: "ref \<Rightarrow> store_config"
  stores :: "(string \<times> ref) list"
  saved :: "(string \<times> store_config) list option"
  writable :: bool

text \<open>\<open>d[k] = v\<close> on a dict in insertion order.\<close>

fun setitem :: "('k \<times> 'v) list \<Rightarrow> 'k \<Rightarrow> 'v \<Rightarrow> ('k \<times> 'v) list" where
  "setitem [] k v = [(k, v)]"
| "setitem ((k', v') # d) k v = (if k' = k then (k, v) # d else (k', v') # setitem d k v)"

definition save_config :: "manager \<Rightarrow> manager" where
  "save_config st =
     (if writable st
      then st\<lparr>saved := Some (map (\<lambda>(k, r). (k, heap st r)) (stores st))\<rparr>
      else st)"

subsection \<open>Registration: \<open>add_new_store\<close>\<close>

text \<open>The loop over \<open>required_fields\<close>: the first missing field raises.\<close>

definition check_required :: "store_config \<Rightarrow> error + unit" where
  "check_required c =
     (if name c = None then Inl (ValueError (Missing_required_field ''name''))
      else if address c = None then Inl (ValueError (Missing_required_field ''address''))
      else if type c = None then Inl (ValueError (Missing_required_field ''type''))
      else if size_category c = None
        then Inl (ValueError (Missing_required_field ''size_category''))
      else if target_audience c = None
        then Inl (ValueError (Missing_required_field ''target_audience''))
      else if avg_daily_visitors c = None
        then Inl (ValueError (Missing_required_field ''avg_daily_visitors''))
      else Inr ())"

text \<open>The loop over \<open>default_values\<close>: each absent key is written.\<close>

definition set_defaults :: "store_config \<Rightarrow> store_config" where
  "set_defaults c = c
     \<lparr>seasonal_multipliers := Some (get (seasonal_multipliers c)
        [(''winter'', 0.9), (''spring'', 1.1), (''summer'', 1.0), (''autumn'', 1.0)]),
      holiday_multipliers := Some (get (holiday_multipliers c)
        [(''WOMENS_DAY'', 4.0), (''VALENTINES'', 1.8), (''NAURYZ'', 2.0)]),
      weather_sensitivity := Some (get (weather_sensitivity c) 0.25),
      forecast_horizon_days := Some (get (forecast_horizon_days c) 7),
      safety_stock_ratio := Some (get (safety_stock_ratio c) 1.2),
      active := Some (get (active c) True)\<rparr>"

text \<open>
  The body of the \<open>try\<close> block. \<open>store_config\<close> is a reference to the caller's dict: the
  defaults are written through it and the reference itself is stored in the registry.
\<close>

definition add_new_store_try :: "manager \<Rightarrow> string \<Rightarrow> ref \<Rightarrow> error + manager" where
  "add_new_store_try st store_id store_config =
     (case check_required (heap st store_config) of
        Inl e \<Rightarrow> Inl e
      | Inr _ \<Rightarrow>
          let st1 = st\<lparr>heap := (heap st)(store_config := set_defaults (heap st store_config))\<rparr>;
              st2 = st1\<lparr>stores := setitem (stores st1) store_id store_config\<rparr>
          in Inr (save_config st2))"

text \<open>
  The whole method: \<open>except Exception\<close> catches whatever the body raised and the method
  returns \<open>False\<close>. The result is the outcome the caller sees (\<open>Inl\<close>: an exception
  leaves the call) with the state after the call.
\<close>

definition add_new_store :: "manager \<Rightarrow> string \<Rightarrow> ref \<Rightarrow> (error + bool) \<times> manager" where
  "add_new_store st store_id store_config =
     (case add_new_store_try st store_id store_config of
        Inl e \<Rightarrow> (Inr False, st)
      | Inr st' \<Rightarrow> (Inr True, st'))"

subsection \<open>Floats\<close>

text \<open>
  A finite Python float is a real number and arithmetic on finite floats is exact:
  rounding is not modelled. What is modelled is the loss of finiteness. A result whose
  magnitude reaches the overflow threshold of the binary64 format is an infinity, an
  infinity times zero is a NaN, and \<open>int\<close> of an infinity raises \<open>OverflowError\<close>, of a NaN
  \<open>ValueError\<close>. The second operand of the operations below is always a finite value (a
  number of the configuration, a constant or a small integer).
\<close>

datatype pyfloat = Finite real | Infinity bool | NaN

definition overflows :: "real \<Rightarrow> bool" where
  "overflows x \<longleftrightarrow> 2 ^ 1024 - 2 ^ 970 \<le> \<bar>x\<bar>"

definition float_result :: "real \<Rightarrow> pyfloat" where
  "float_result x = (if overflows x then Infinity (x < 0) else Finite x)"

fun fmul :: "pyfloat \<Rightarrow> real \<Rightarrow> pyfloat" where
  "fmul (Finite x) y = float_result (x * y)"
| "fmul (Infinity negative) y = (if y = 0 then NaN else Infinity (negative \<noteq> (y < 0)))"
| "fmul NaN y = NaN"

fun fsub :: "pyfloat \<Rightarrow> real \<Rightarrow> pyfloat" where
  "fsub (Finite x) y = float_result (x - y)"
| "fsub (Infinity negative) y = Infinity negative"
| "fsub NaN y = NaN"

text \<open>Python's \<open>int(x)\<close> on a finite float truncates towards zero.\<close>

definition trunc :: "real \<Rightarrow> int" where
  "trunc x = (if 0 \<le> x then \<lfloor>x\<rfloor> else \<lceil>x\<rceil>)"

fun py_int :: "pyfloat \<Rightarrow> error + int" where
  "py_int (Finite x) = Inr (trunc x)"
| "py_int (Infinity negative) = Inl OverflowError"
| "py_int NaN = Inl (ValueError Cannot_convert_NaN)"

subsection \<open>The random source\<close>

text \<open>
  The generator is an explicit value: an infinite tape of numbers and a read position.
  \<open>random_sample\<close> is the generator's primitive, the next number of the tape reduced to
  \<open>[0, 1)\<close>; \<open>randint low high\<close> (an integer in \<open>[low, high)\<close>) and \<open>uniform low high\<close>
  (\<open>low + (high - low) * random_sample()\<close>) are derived from it as in NumPy. Every call
  site of \<open>randint\<close> has \<open>low < high\<close>, so its \<open>ValueError\<close> for an empty range is not
  modelled. \<open>uniform\<close> raises \<open>OverflowError\<close>, before it draws, when the width of the
  range is not finite.
\<close>

record rng =
  tape :: "nat \<Rightarrow> real"
  pos :: nat

definition random_sample :: "rng \<Rightarrow> real \<times> rng" where
  "random_sample g = (frac (tape g (pos g)), g\<lparr>pos := Suc (pos g)\<rparr>)"

definition randint :: "int \<Rightarrow> int \<Rightarrow> rng \<Rightarrow> int \<times> rng" where
  "randint low high g =
     (case random_sample g of (u, g') \<Rightarrow> (low + \<lfloor>u * of_int (high - low)\<rfloor>, g'))"

definition uniform :: "real \<Rightarrow> real \<Rightarrow> rng \<Rightarrow> error + real \<times> rng" where
  "uniform low high g =
     (if overflows (high - low) then Inl OverflowError
      else case random_sample g of (u, g') \<Rightarrow> Inr (low + (high - low) * u, g'))"

text \<open>
  Two generators have the same seed when they will give the same samples: they stand at
  the same position and their tapes agree from there on.
\<close>

definition same_stream :: "rng \<Rightarrow> rng \<Rightarrow> bool" where
  "same_stream g1 g2 \<longleftrightarrow> pos g1 = pos g2 \<and> (\<forall>k\<ge>pos g1. tape g1 k = tape g2 k)"

subsection \<open>Forecast rows\<close>

text \<open>
  The columns of the forecast table, in the order of the source: \<open>Date\<close> is the column
  of the \<open>%Y-%m-%d\<close> date, \<open>Weekday_name\<close> the \<open>%A\<close> day name, \<open>Store\<close> the store id,
  \<open>Store_name\<close> the store's name, \<open>Demand\<close> the demand forecast (\<open>final_demand\<close>),
  \<open>Current_stock\<close> the stock, \<open>Recommended_purchase\<close> the purchase recommendation,
  \<open>Priority\<close> the priority (\<open>High\<close>, \<open>Medium\<close> and \<open>Low\<close> stand for the three string
  literals of the source), and the last three the seasonal, holiday and weather
  coefficients.
\<close>

datatype priority = High | Medium | Low

record row =
  Date :: string
  Weekday_name :: string
  Store :: string
  Store_name :: string
  SKU :: string
  Demand :: int
  Current_stock :: int
  Recommended_purchase :: int
  Priority :: priority
  Seasonal_coef :: real
  Holiday_coef :: real
  Weather_coef :: real

text \<open>
  The SKU literals of the source, as the bytes of their UTF-8 encoding (on which the
  order of byte strings is Python's order of the strings); each constant is named by the
  transliteration of its literal.
\<close>

definition Roza_Premium_80sm :: string where
  "Roza_Premium_80sm =
     [CHR 0xD0, CHR 0xA0, CHR 0xD0, CHR 0xBE, CHR 0xD0, CHR 0xB7, CHR 0xD0, CHR 0xB0]
       @ ''_Premium_80'' @ [CHR 0xD1, CHR 0x81, CHR 0xD0, CHR 0xBC]"

definition Pion_import :: string where
  "Pion_import =
     [CHR 0xD0, CHR 0x9F, CHR 0xD0, CHR 0xB8, CHR 0xD0, CHR 0xBE, CHR 0xD0, CHR 0xBD]
       @ ''_'' @ [CHR 0xD0, CHR 0xB8, CHR 0xD0, CHR 0xBC, CHR 0xD0, CHR 0xBF, CHR 0xD0,
       CHR 0xBE, CHR 0xD1, CHR 0x80, CHR 0xD1, CHR 0x82]"

definition Orhideya_falenopsis :: string where
  "Orhideya_falenopsis =
     [CHR 0xD0, CHR 0x9E, CHR 0xD1, CHR 0x80, CHR 0xD1, CHR 0x85, CHR 0xD0, CHR 0xB8,
       CHR 0xD0, CHR 0xB4, CHR 0xD0, CHR 0xB5, CHR 0xD1, CHR 0x8F] @ ''_'' @ [CHR 0xD1,
       CHR 0x84, CHR 0xD0, CHR 0xB0, CHR 0xD0, CHR 0xBB, CHR 0xD0, CHR 0xB5, CHR 0xD0,
       CHR 0xBD, CHR 0xD0, CHR 0xBE, CHR 0xD0, CHR 0xBF, CHR 0xD1, CHR 0x81, CHR 0xD0,
       CHR 0xB8, CHR 0xD1, CHR 0x81]"

definition Liliya_oriental :: string where
  "Liliya_oriental =
     [CHR 0xD0, CHR 0x9B, CHR 0xD0, CHR 0xB8, CHR 0xD0, CHR 0xBB, CHR 0xD0, CHR 0xB8,
       CHR 0xD1, CHR 0x8F] @ ''_'' @ [CHR 0xD0, CHR 0xBE, CHR 0xD1, CHR 0x80, CHR 0xD0,
       CHR 0xB8, CHR 0xD0, CHR 0xB5, CHR 0xD0, CHR 0xBD, CHR 0xD1, CHR 0x82, CHR 0xD0,
       CHR 0xB0, CHR 0xD0, CHR 0xBB, CHR 0xD1, CHR 0x8C]"

definition Roza_Devid_Ostin :: string where
  "Roza_Devid_Ostin =
     [CHR 0xD0, CHR 0xA0, CHR 0xD0, CHR 0xBE, CHR 0xD0, CHR 0xB7, CHR 0xD0, CHR 0xB0]
       @ ''_'' @ [CHR 0xD0, CHR 0x94, CHR 0xD1, CHR 0x8D, CHR 0xD0, CHR 0xB2, CHR 0xD0,
       CHR 0xB8, CHR 0xD0, CHR 0xB4] @ ''_'' @ [CHR 0xD0, CHR 0x9E, CHR 0xD1, CHR 0x81,
       CHR 0xD1, CHR 0x82, CHR 0xD0, CHR 0xB8, CHR 0xD0, CHR 0xBD]"

definition Gortenziya_krupnaya :: string where
  "Gortenziya_krupnaya =
     [CHR 0xD0, CHR 0x93, CHR 0xD0, CHR 0xBE, CHR 0xD1, CHR 0x80, CHR 0xD1, CHR 0x82,
       CHR 0xD0, CHR 0xB5, CHR 0xD0, CHR 0xBD, CHR 0xD0, CHR 0xB7, CHR 0xD0, CHR 0xB8,
       CHR 0xD1, CHR 0x8F] @ ''_'' @ [CHR 0xD0, CHR 0xBA, CHR 0xD1, CHR 0x80, CHR 0xD1,
       CHR 0x83, CHR 0xD0, CHR 0xBF, CHR 0xD0, CHR 0xBD, CHR 0xD0, CHR 0xB0, CHR 0xD1,
       CHR 0x8F]"

definition Roza_standart_60sm :: string where
  "Roza_standart_60sm =
     [CHR 0xD0, CHR 0xA0, CHR 0xD0, CHR 0xBE, CHR 0xD0, CHR 0xB7, CHR 0xD0, CHR 0xB0]
       @ ''_'' @ [CHR 0xD1, CHR 0x81, CHR 0xD1, CHR 0x82, CHR 0xD0, CHR 0xB0, CHR 0xD0,
       CHR 0xBD, CHR 0xD0, CHR 0xB4, CHR 0xD0, CHR 0xB0, CHR 0xD1, CHR 0x80, CHR 0xD1,
       CHR 0x82] @ ''_60'' @ [CHR 0xD1, CHR 0x81, CHR 0xD0, CHR 0xBC]"

definition Tyulpan_standart :: string where
  "Tyulpan_standart =
     [CHR 0xD0, CHR 0xA2, CHR 0xD1, CHR 0x8E, CHR 0xD0, CHR 0xBB, CHR 0xD1, CHR 0x8C,
       CHR 0xD0, CHR 0xBF, CHR 0xD0, CHR 0xB0, CHR 0xD0, CHR 0xBD] @ ''_'' @ [CHR 0xD1,
       CHR 0x81, CHR 0xD1, CHR 0x82, CHR 0xD0, CHR 0xB0, CHR 0xD0, CHR 0xBD, CHR 0xD0,
       CHR 0xB4, CHR 0xD0, CHR 0xB0, CHR 0xD1, CHR 0x80, CHR 0xD1, CHR 0x82]"

definition Hrizantema_kust :: string where
  "Hrizantema_kust =
     [CHR 0xD0, CHR 0xA5, CHR 0xD1, CHR 0x80, CHR 0xD0, CHR 0xB8, CHR 0xD0, CHR 0xB7,
       CHR 0xD0, CHR 0xB0, CHR 0xD0, CHR 0xBD, CHR 0xD1, CHR 0x82, CHR 0xD0, CHR 0xB5,
       CHR 0xD0, CHR 0xBC, CHR 0xD0, CHR 0xB0] @ ''_'' @ [CHR 0xD0, CHR 0xBA, CHR 0xD1,
       CHR 0x83, CHR 0xD1, CHR 0x81, CHR 0xD1, CHR 0x82]"

definition Gvozdika_standart :: string where
  "Gvozdika_standart =
     [CHR 0xD0, CHR 0x93, CHR 0xD0, CHR 0xB2, CHR 0xD0, CHR 0xBE, CHR 0xD0, CHR 0xB7,
       CHR 0xD0, CHR 0xB4, CHR 0xD0, CHR 0xB8, CHR 0xD0, CHR 0xBA, CHR 0xD0, CHR 0xB0]
       @ ''_'' @ [CHR 0xD1, CHR 0x81, CHR 0xD1, CHR 0x82, CHR 0xD0, CHR 0xB0, CHR 0xD0,
       CHR 0xBD, CHR 0xD0, CHR 0xB4, CHR 0xD0, CHR 0xB0, CHR 0xD1, CHR 0x80, CHR 0xD1,
       CHR 0x82]"

definition Alstromeriya :: string where
  "Alstromeriya =
     [CHR 0xD0, CHR 0x90, CHR 0xD0, CHR 0xBB, CHR 0xD1, CHR 0x8C, CHR 0xD1, CHR 0x81,
       CHR 0xD1, CHR 0x82, CHR 0xD1, CHR 0x80, CHR 0xD0, CHR 0xBE, CHR 0xD0, CHR 0xBC,
       CHR 0xD0, CHR 0xB5, CHR 0xD1, CHR 0x80, CHR 0xD0, CHR 0xB8, CHR 0xD1, CHR 0x8F]"

definition Gerbery_miks :: string where
  "Gerbery_miks =
     [CHR 0xD0, CHR 0x93, CHR 0xD0, CHR 0xB5, CHR 0xD1, CHR 0x80, CHR 0xD0, CHR 0xB1,
       CHR 0xD0, CHR 0xB5, CHR 0xD1, CHR 0x80, CHR 0xD1, CHR 0x8B] @ ''_'' @ [CHR 0xD0,
       CHR 0xBC, CHR 0xD0, CHR 0xB8, CHR 0xD0, CHR 0xBA, CHR 0xD1, CHR 0x81]"

definition Roza_biznes_70sm :: string where
  "Roza_biznes_70sm =
     [CHR 0xD0, CHR 0xA0, CHR 0xD0, CHR 0xBE, CHR 0xD0, CHR 0xB7, CHR 0xD0, CHR 0xB0]
       @ ''_'' @ [CHR 0xD0, CHR 0xB1, CHR 0xD0, CHR 0xB8, CHR 0xD0, CHR 0xB7, CHR 0xD0,
       CHR 0xBD, CHR 0xD0, CHR 0xB5, CHR 0xD1, CHR 0x81] @ ''_70'' @ [CHR 0xD1,
       CHR 0x81, CHR 0xD0, CHR 0xBC]"

definition Buket_korporativnyj :: string where
  "Buket_korporativnyj =
     [CHR 0xD0, CHR 0x91, CHR 0xD1, CHR 0x83, CHR 0xD0, CHR 0xBA, CHR 0xD0, CHR 0xB5,
       CHR 0xD1, CHR 0x82] @ ''_'' @ [CHR 0xD0, CHR 0xBA, CHR 0xD0, CHR 0xBE, CHR 0xD1,
       CHR 0x80, CHR 0xD0, CHR 0xBF, CHR 0xD0, CHR 0xBE, CHR 0xD1, CHR 0x80, CHR 0xD0,
       CHR 0xB0, CHR 0xD1, CHR 0x82, CHR 0xD0, CHR 0xB8, CHR 0xD0, CHR 0xB2, CHR 0xD0,
       CHR 0xBD, CHR 0xD1, CHR 0x8B, CHR 0xD0, CHR 0xB9]"

definition Kompoziciya_ofis :: string where
  "Kompoziciya_ofis =
     [CHR 0xD0, CHR 0x9A, CHR 0xD0, CHR 0xBE, CHR 0xD0, CHR 0xBC, CHR 0xD0, CHR 0xBF,
       CHR 0xD0, CHR 0xBE, CHR 0xD0, CHR 0xB7, CHR 0xD0, CHR 0xB8, CHR 0xD1, CHR 0x86,
       CHR 0xD0, CHR 0xB8, CHR 0xD1, CHR 0x8F] @ ''_'' @ [CHR 0xD0, CHR 0xBE, CHR 0xD1,
       CHR 0x84, CHR 0xD0, CHR 0xB8, CHR 0xD1, CHR 0x81]"

definition Roza_klassik :: string where
  "Roza_klassik =
     [CHR 0xD0, CHR 0xA0, CHR 0xD0, CHR 0xBE, CHR 0xD0, CHR 0xB7, CHR 0xD0, CHR 0xB0]
       @ ''_'' @ [CHR 0xD0, CHR 0xBA, CHR 0xD0, CHR 0xBB, CHR 0xD0, CHR 0xB0, CHR 0xD1,
       CHR 0x81, CHR 0xD1, CHR 0x81, CHR 0xD0, CHR 0xB8, CHR 0xD0, CHR 0xBA]"

definition Liliya_biznes :: string where
  "Liliya_biznes =
     [CHR 0xD0, CHR 0x9B, CHR 0xD0, CHR 0xB8, CHR 0xD0, CHR 0xBB, CHR 0xD0, CHR 0xB8,
       CHR 0xD1, CHR 0x8F] @ ''_'' @ [CHR 0xD0, CHR 0xB1, CHR 0xD0, CHR 0xB8, CHR 0xD0,
       CHR 0xB7, CHR 0xD0, CHR 0xBD, CHR 0xD0, CHR 0xB5, CHR 0xD1, CHR 0x81]"

definition Hrizantema_odnogol :: string where
  "Hrizantema_odnogol =
     [CHR 0xD0, CHR 0xA5, CHR 0xD1, CHR 0x80, CHR 0xD0, CHR 0xB8, CHR 0xD0, CHR 0xB7,
       CHR 0xD0, CHR 0xB0, CHR 0xD0, CHR 0xBD, CHR 0xD1, CHR 0x82, CHR 0xD0, CHR 0xB5,
       CHR 0xD0, CHR 0xBC, CHR 0xD0, CHR 0xB0] @ ''_'' @ [CHR 0xD0, CHR 0xBE, CHR 0xD0,
       CHR 0xB4, CHR 0xD0, CHR 0xBD, CHR 0xD0, CHR 0xBE, CHR 0xD0, CHR 0xB3, CHR 0xD0,
       CHR 0xBE, CHR 0xD0, CHR 0xBB]"

definition premium_skus :: "string list" where
  "premium_skus =
     [Roza_Premium_80sm, Pion_import, Orhideya_falenopsis,
      Liliya_oriental, Roza_Devid_Ostin, Gortenziya_krupnaya]"

definition mass_market_skus :: "string list" where
  "mass_market_skus =
     [Roza_standart_60sm, Tyulpan_standart, Hrizantema_kust,
      Gvozdika_standart, Alstromeriya, Gerbery_miks]"

definition business_skus :: "string list" where
  "business_skus =
     [Roza_biznes_70sm, Buket_korporativnyj, Kompoziciya_ofis,
      Roza_klassik, Liliya_biznes, Hrizantema_odnogol]"

text \<open>The assortment and the range of the base demand, chosen by the store's type.\<close>

definition skus_of :: "store_config \<Rightarrow> string list" where
  "skus_of c =
     (let store_type = get (type c) ''mass_market''
      in if store_type = ''premium'' then premium_skus
         else if store_type = ''mass_market'' then mass_market_skus
         else business_skus)"

definition base_demand_range :: "store_config \<Rightarrow> int \<times> int" where
  "base_demand_range c =
     (let store_type = get (type c) ''mass_market''
      in if store_type = ''premium'' then (15, 40)
         else if store_type = ''mass_market'' then (25, 60)
         else (10, 35))"

definition get_season :: "date \<Rightarrow> string" where
  "get_season d =
     (if month d \<in> set [12, 1, 2] then ''winter''
      else if month d \<in> set [3, 4, 5] then ''spring''
      else if month d \<in> set [6, 7, 8] then ''summer''
      else ''autumn'')"

definition get_holiday_multiplier :: "date \<Rightarrow> store_config \<Rightarrow> error + real" where
  "get_holiday_multiplier d c =
     (case subscript ''holiday_multipliers'' (holiday_multipliers c) of
        Inl e \<Rightarrow> Inl e
      | Inr hm \<Rightarrow>
          let holidays =
                [(''03-08'', get (map_of hm ''WOMENS_DAY'') 1.0),
                 (''02-14'', get (map_of hm ''VALENTINES'') 1.0),
                 (''03-21'', get (map_of hm ''NAURYZ'') 1.0)];
              date_str = strftime_md d
          in Inr (get (map_of holidays date_str) 1.0))"

definition get_weather_multiplier :: "store_config \<Rightarrow> rng \<Rightarrow> error + real \<times> rng" where
  "get_weather_multiplier c g =
     (let sensitivity = get (weather_sensitivity c) 0.25
      in case uniform (- sensitivity) sensitivity g of
           Inl e \<Rightarrow> Inl e
         | Inr (weather_impact, g') \<Rightarrow> Inr (1.0 + weather_impact, g'))"

definition classify :: "int \<Rightarrow> int \<Rightarrow> priority" where
  "classify recommended_purchase final_demand =
     (if recommended_purchase > final_demand then High
      else if of_int recommended_purchase > of_int final_demand * (0.5 :: real) then Medium
      else Low)"

text \<open>
  One pass of the inner loop: the row for one SKU on one date. The statements, and with
  them the draws from the generator and the possible exceptions, are in the order of the
  source.
\<close>

definition forecast_row ::
  "string \<Rightarrow> store_config \<Rightarrow> env \<Rightarrow> date \<Rightarrow> string \<Rightarrow> rng \<Rightarrow> error + row \<times> rng" where
  "forecast_row store_id c env d sku g =
     (case randint (fst (base_demand_range c)) (snd (base_demand_range c)) g of
        (base_demand, g1) \<Rightarrow>
     (case subscript ''seasonal_multipliers'' (seasonal_multipliers c) of
        Inl e \<Rightarrow> Inl e
      | Inr sm \<Rightarrow>
     (let seasonal_mult = get (map_of sm (get_season d)) 1.0;
          weekend_mult = (if weekday d \<in> set [5, 6] then 1.3 else 1.0)
      in case get_holiday_multiplier d c of
        Inl e \<Rightarrow> Inl e
      | Inr holiday_mult \<Rightarrow>
     (case get_weather_multiplier c g1 of
        Inl e \<Rightarrow> Inl e
      | Inr (weather_mult, g2) \<Rightarrow>
     (case py_int (fmul (fmul (fmul (fmul (Finite (of_int base_demand)) seasonal_mult)
                     weekend_mult) holiday_mult) weather_mult) of
        Inl e \<Rightarrow> Inl e
      | Inr final_demand \<Rightarrow>
     (case randint 0 25 g2 of
        (current_stock, g3) \<Rightarrow>
     (let ratio = get (safety_stock_ratio c) 1.2
      in case py_int (fsub (fmul (Finite (of_int final_demand)) ratio)
                        (of_int current_stock)) of
        Inl e \<Rightarrow> Inl e
      | Inr purchase \<Rightarrow>
     (let recommended_purchase = max 0 purchase;
          priority = classify recommended_purchase final_demand
      in case subscript ''name'' (name c) of
        Inl e \<Rightarrow> Inl e
      | Inr store_name \<Rightarrow>
          Inr (\<lparr>Date = strftime_ymd d, Weekday_name = strftime_A env d, Store = store_id,
                Store_name = store_name, SKU = sku, Demand = final_demand,
                Current_stock = current_stock,
                Recommended_purchase = recommended_purchase, Priority = priority,
                Seasonal_coef = seasonal_mult, Holiday_coef = holiday_mult,
                Weather_coef = weather_mult\<rparr>, g3)))))))))"

text \<open>\<open>for sku in skus\<close>.\<close>

fun sku_loop ::
  "string \<Rightarrow> store_config \<Rightarrow> env \<Rightarrow> date \<Rightarrow> string list \<Rightarrow> rng \<Rightarrow> error + row list \<times> rng"
  where
  "sku_loop store_id c env d [] g = Inr ([], g)"
| "sku_loop store_id c env d (sku # skus) g =
     (case forecast_row store_id c env d sku g of
        Inl e \<Rightarrow> Inl e
      | Inr (r, g') \<Rightarrow>
          (case sku_loop store_id c env d skus g' of
             Inl e \<Rightarrow> Inl e
           | Inr (rs, g'') \<Rightarrow> Inr (r # rs, g'')))"

text \<open>\<open>for day in range(forecast_days)\<close>, over the list of the day numbers still to do.\<close>

fun day_loop ::
  "string \<Rightarrow> store_config \<Rightarrow> env \<Rightarrow> nat list \<Rightarrow> rng \<Rightarrow> error + row list \<times> rng"
  where
  "day_loop store_id c env [] g = Inr ([], g)"
| "day_loop store_id c env (k # ks) g =
     (case add_days (now env k) (int k) of
        Inl e \<Rightarrow> Inl e
      | Inr d \<Rightarrow>
          (case sku_loop store_id c env d (skus_of c) g of
             Inl e \<Rightarrow> Inl e
           | Inr (rs, g') \<Rightarrow>
               (case day_loop store_id c env ks g' of
                  Inl e \<Rightarrow> Inl e
                | Inr (rs', g'') \<Rightarrow> Inr (rs @ rs', g''))))"

definition generate_store_specific_forecast ::
  "manager \<Rightarrow> env \<Rightarrow> rng \<Rightarrow> string \<Rightarrow> int \<Rightarrow> error + row list \<times> rng" where
  "generate_store_specific_forecast st env g store_id forecast_days =
     (case subscript store_id (map_of (stores st) store_id) of
        Inl e \<Rightarrow> Inl e
      | Inr r \<Rightarrow> day_loop store_id (heap st r) env [0 ..< nat forecast_days] g)"

text \<open>
  \<open>get_store_forecast\<close>; \<open>forecast_days\<close> is \<open>None\<close> when the caller leaves it out. An
  empty \<open>DataFrame\<close> is the empty list of rows.
\<close>

definition get_store_forecast ::
  "manager \<Rightarrow> env \<Rightarrow> rng \<Rightarrow> string \<Rightarrow> int option \<Rightarrow> error + row list \<times> rng" where
  "get_store_forecast st env g store_id forecast_days =
     (case map_of (stores st) store_id of
        None \<Rightarrow> Inl (ValueError (Store_not_found store_id))
      | Some r \<Rightarrow>
          let c = heap st r
          in if \<not> get (active c) True then Inr ([], g)
             else generate_store_specific_forecast st env g store_id
                    (case forecast_days of
                       None \<Rightarrow> get (forecast_horizon_days c) 7
                     | Some n \<Rightarrow> n))"

subsection \<open>Consolidation: \<open>get_consolidation_opportunities\<close>\<close>




record group =
  group_Date :: string
  group_SKU :: string
  purchase :: int
  store_count :: int








subsection \<open>The default configuration and the example of the source\<close>

definition empty_dict :: store_config where
  "empty_dict =
     \<lparr>name = None, address = None, type = None, size_category = None,
      opening_hours = None, target_audience = None, avg_daily_visitors = None,
      seasonal_multipliers = None, holiday_multipliers = None,
      weather_sensitivity = None, forecast_horizon_days = None,
      safety_stock_ratio = None, active = None\<rparr>"

text \<open>The names and addresses of the stores, as UTF-8 bytes like the SKUs.\<close>

definition Almaty_TsUM :: string where
  "Almaty_TsUM =
     [CHR 0xD0, CHR 0x90, CHR 0xD0, CHR 0xBB, CHR 0xD0, CHR 0xBC, CHR 0xD0, CHR 0xB0,
       CHR 0xD1, CHR 0x82, CHR 0xD1, CHR 0x8B] @ '' '' @ [CHR 0xD0, CHR 0xA6, CHR 0xD0,
       CHR 0xA3, CHR 0xD0, CHR 0x9C]"

definition pr_Abylaj_hana_62 :: string where
  "pr_Abylaj_hana_62 =
     [CHR 0xD0, CHR 0xBF, CHR 0xD1, CHR 0x80] @ ''. '' @ [CHR 0xD0, CHR 0x90, CHR 0xD0,
       CHR 0xB1, CHR 0xD1, CHR 0x8B, CHR 0xD0, CHR 0xBB, CHR 0xD0, CHR 0xB0, CHR 0xD0,
       CHR 0xB9] @ '' '' @ [CHR 0xD1, CHR 0x85, CHR 0xD0, CHR 0xB0, CHR 0xD0, CHR 0xBD,
       CHR 0xD0, CHR 0xB0] @ '', 62''"

definition Almaty_Mega :: string where
  "Almaty_Mega =
     [CHR 0xD0, CHR 0x90, CHR 0xD0, CHR 0xBB, CHR 0xD0, CHR 0xBC, CHR 0xD0, CHR 0xB0,
       CHR 0xD1, CHR 0x82, CHR 0xD1, CHR 0x8B] @ '' '' @ [CHR 0xD0, CHR 0x9C, CHR 0xD0,
       CHR 0xB5, CHR 0xD0, CHR 0xB3, CHR 0xD0, CHR 0xB0]"

definition ul_Rozybakieva_247a :: string where
  "ul_Rozybakieva_247a =
     [CHR 0xD1, CHR 0x83, CHR 0xD0, CHR 0xBB] @ ''. '' @ [CHR 0xD0, CHR 0xA0, CHR 0xD0,
       CHR 0xBE, CHR 0xD0, CHR 0xB7, CHR 0xD1, CHR 0x8B, CHR 0xD0, CHR 0xB1, CHR 0xD0,
       CHR 0xB0, CHR 0xD0, CHR 0xBA, CHR 0xD0, CHR 0xB8, CHR 0xD0, CHR 0xB5, CHR 0xD0,
       CHR 0xB2, CHR 0xD0, CHR 0xB0] @ '', 247'' @ [CHR 0xD0, CHR 0xB0]"

definition Almaty_Dostyk_Plaza :: string where
  "Almaty_Dostyk_Plaza =
     [CHR 0xD0, CHR 0x90, CHR 0xD0, CHR 0xBB, CHR 0xD0, CHR 0xBC, CHR 0xD0, CHR 0xB0,
       CHR 0xD1, CHR 0x82, CHR 0xD1, CHR 0x8B] @ '' Dostyk Plaza''"

definition pr_Dostyk_111 :: string where
  "pr_Dostyk_111 =
     [CHR 0xD0, CHR 0xBF, CHR 0xD1, CHR 0x80] @ ''. '' @ [CHR 0xD0, CHR 0x94, CHR 0xD0,
       CHR 0xBE, CHR 0xD1, CHR 0x81, CHR 0xD1, CHR 0x82, CHR 0xD1, CHR 0x8B, CHR 0xD0,
       CHR 0xBA] @ '', 111''"

definition Almaty_Esentai_Mall :: string where
  "Almaty_Esentai_Mall =
     [CHR 0xD0, CHR 0x90, CHR 0xD0, CHR 0xBB, CHR 0xD0, CHR 0xBC, CHR 0xD0, CHR 0xB0,
       CHR 0xD1, CHR 0x82, CHR 0xD1, CHR 0x8B] @ '' Esentai Mall''"

definition pr_Al_Farabi_77_8 :: string where
  "pr_Al_Farabi_77_8 =
     [CHR 0xD0, CHR 0xBF, CHR 0xD1, CHR 0x80] @ ''. '' @ [CHR 0xD0, CHR 0x90, CHR 0xD0,
       CHR 0xBB, CHR 0xD1, CHR 0x8C] @ ''-'' @ [CHR 0xD0, CHR 0xA4, CHR 0xD0, CHR 0xB0,
       CHR 0xD1, CHR 0x80, CHR 0xD0, CHR 0xB0, CHR 0xD0, CHR 0xB1, CHR 0xD0, CHR 0xB8]
       @ '', 77/8''"

definition almaty_1 :: store_config where
  "almaty_1 =
     \<lparr>name = Some Almaty_TsUM, address = Some pr_Abylaj_hana_62,
      type = Some ''premium'', size_category = Some ''large'',
      opening_hours = Some [(''start'', ''09:00''), (''end'', ''22:00'')],
      target_audience = Some ''premium_customers'', avg_daily_visitors = Some 200,
      seasonal_multipliers =
        Some [(''winter'', 0.8), (''spring'', 1.2), (''summer'', 1.0), (''autumn'', 1.1)],
      holiday_multipliers =
        Some [(''WOMENS_DAY'', 4.5), (''VALENTINES'', 2.0), (''NAURYZ'', 2.2)],
      weather_sensitivity = Some 0.3, forecast_horizon_days = Some 14,
      safety_stock_ratio = Some 1.2, active = Some True\<rparr>"

definition almaty_2 :: store_config where
  "almaty_2 =
     \<lparr>name = Some Almaty_Mega, address = Some ul_Rozybakieva_247a,
      type = Some ''mass_market'', size_category = Some ''large'',
      opening_hours = Some [(''start'', ''10:00''), (''end'', ''22:00'')],
      target_audience = Some ''families'', avg_daily_visitors = Some 350,
      seasonal_multipliers =
        Some [(''winter'', 0.9), (''spring'', 1.3), (''summer'', 1.1), (''autumn'', 1.0)],
      holiday_multipliers =
        Some [(''WOMENS_DAY'', 4.0), (''VALENTINES'', 1.8), (''NAURYZ'', 2.5)],
      weather_sensitivity = Some 0.2, forecast_horizon_days = Some 7,
      safety_stock_ratio = Some 1.5, active = Some True\<rparr>"

definition almaty_3 :: store_config where
  "almaty_3 =
     \<lparr>name = Some Almaty_Dostyk_Plaza, address = Some pr_Dostyk_111,
      type = Some ''premium'', size_category = Some ''medium'',
      opening_hours = Some [(''start'', ''10:00''), (''end'', ''21:00'')],
      target_audience = Some ''business_customers'', avg_daily_visitors = Some 150,
      seasonal_multipliers =
        Some [(''winter'', 0.7), (''spring'', 1.1), (''summer'', 0.9), (''autumn'', 1.2)],
      holiday_multipliers =
        Some [(''WOMENS_DAY'', 3.8), (''VALENTINES'', 2.2), (''NAURYZ'', 1.8)],
      weather_sensitivity = Some 0.4, forecast_horizon_days = Some 10,
      safety_stock_ratio = Some 1.3, active = Some True\<rparr>"

text \<open>The dict the example of the source registers as \<open>almaty_4\<close>.\<close>

definition new_store_config :: store_config where
  "new_store_config = empty_dict
     \<lparr>name := Some Almaty_Esentai_Mall, address := Some pr_Al_Farabi_77_8,
      type := Some ''premium'', size_category := Some ''large'',
      target_audience := Some ''luxury_customers'', avg_daily_visitors := Some 180\<rparr>"

text \<open>
  The manager as \<open>__init__\<close> leaves it when no configuration file exists: the default
  configuration, already written to the file. The three store dicts are the objects 0,
  1 and 2; object 3 is the caller's \<open>new_store_config\<close>.
\<close>

definition default_manager :: manager where
  "default_manager =
     \<lparr>heap = (\<lambda>r. if r = 0 then almaty_1 else if r = 1 then almaty_2
                 else if r = 2 then almaty_3 else if r = 3 then new_store_config
                 else empty_dict),
      stores = [(''almaty_1'', 0), (''almaty_2'', 1), (''almaty_3'', 2)],
      saved = Some [(''almaty_1'', almaty_1), (''almaty_2'', almaty_2),
                    (''almaty_3'', almaty_3)],
      writable = True\<rparr>"

text \<open>The default manager after the second store has been deactivated.\<close>

definition closed_manager :: manager where
  "closed_manager =
     default_manager\<lparr>heap := (heap default_manager)(1 := almaty_2\<lparr>active := Some False\<rparr>)\<rparr>"

text \<open>
  The default manager when the caller's dict (object 3) lacks \<open>avg_daily_visitors\<close>.
\<close>

definition incomplete_manager :: manager where
  "incomplete_manager =
     default_manager\<lparr>heap := (heap default_manager)
        (3 := new_store_config\<lparr>avg_daily_visitors := None\<rparr>)\<rparr>"

text \<open>
  Inputs for the examples: an environment, in the C locale, whose clock stands at Friday
  2025-03-07, one whose clock stands at Saturday 2025-03-08 and one for 2025-01-01; a
  generator whose every sample is 1/2; the
  row the first store gets on that Friday from that generator, up to the purchase
  recommendation and the priority; and the default manager when the first store's
  safety stock ratio is \<open>-1\<close>.
\<close>

definition friday_env :: env where
  "friday_env = \<lparr>now = (\<lambda>k. \<lparr>year = 2025, month = 3, day = 7\<rparr>), day_name = c_day_name\<rparr>"

definition saturday_env :: env where
  "saturday_env = \<lparr>now = (\<lambda>k. \<lparr>year = 2025, month = 3, day = 8\<rparr>), day_name = c_day_name\<rparr>"

definition new_year_env :: env where
  "new_year_env = \<lparr>now = (\<lambda>k. \<lparr>year = 2025, month = 1, day = 1\<rparr>), day_name = c_day_name\<rparr>"

definition half_tape :: rng where
  "half_tape = \<lparr>tape = (\<lambda>k. 1 / 2), pos = 0\<rparr>"

definition friday_row :: "int \<Rightarrow> priority \<Rightarrow> string \<Rightarrow> row" where
  "friday_row recommended_purchase priority sku =
     \<lparr>Date = ''2025-03-07'', Weekday_name = ''Friday'', Store = ''almaty_1'',
      Store_name = Almaty_TsUM, SKU = sku, Demand = 32, Current_stock = 12,
      Recommended_purchase = recommended_purchase, Priority = priority,
      Seasonal_coef = 1.2, Holiday_coef = 1.0, Weather_coef = 1.0\<rparr>"


text \<open>The row the first store gets on that Saturday from that generator.\<close>

definition saturday_row :: "string \<Rightarrow> row" where
  "saturday_row sku =
     \<lparr>Date = ''2025-03-08'', Weekday_name = ''Saturday'', Store = ''almaty_1'',
      Store_name = Almaty_TsUM, SKU = sku, Demand = 189, Current_stock = 12,
      Recommended_purchase = 214, Priority = High,
      Seasonal_coef = 1.2, Holiday_coef = 4.5, Weather_coef = 1.0\<rparr>"

text \<open>
  An environment whose clock reads Friday 2025-03-07 in the first pass and Saturday
  afterwards.
\<close>

definition midnight_env :: env where
  "midnight_env =
     \<lparr>now = (\<lambda>k. if k = 0 then \<lparr>year = 2025, month = 3, day = 7\<rparr>
                  else \<lparr>year = 2025, month = 3, day = 8\<rparr>),
      day_name = c_day_name\<rparr>"





section \<open>Properties\<close>

subsection \<open>Dicts and the registry\<close>

lemma map_of_setitem: "map_of (setitem d k v) = (map_of d)(k \<mapsto> v)"
  by (induction d k v rule: setitem.induct) auto

lemma length_setitem:
  "length (setitem d k v) = (if k \<in> fst ` set d then length d else Suc (length d))"
  by (induction d k v rule: setitem.induct) auto

lemma check_required_Inr:
  "check_required c = Inr () \<longleftrightarrow>
     name c \<noteq> None \<and> address c \<noteq> None \<and> type c \<noteq> None \<and> size_category c \<noteq> None \<and>
     target_audience c \<noteq> None \<and> avg_daily_visitors c \<noteq> None"
  by (simp add: check_required_def)

lemma stores_save_config: "stores (save_config st) = stores st"
  by (simp add: save_config_def)

lemma heap_save_config: "heap (save_config st) = heap st"
  by (simp add: save_config_def)

subsection \<open>Unknown and inactive stores\<close>

text \<open>
  Claim C4. A forecast for a store id that is not in the registry fails with the
  \<open>ValueError\<close> that reports the store as not found (the specification's
  \<open>NotFoundError\<close>); a forecast for a registered store whose \<open>active\<close> flag is false
  returns the empty table, raises nothing and draws nothing from the generator.
\<close>

theorem forecast_unknown_or_inactive:
  "(map_of (stores st) store_id = None \<longrightarrow>
      get_store_forecast st env g store_id forecast_days
        = Inl (ValueError (Store_not_found store_id))) \<and>
   (\<forall>r. map_of (stores st) store_id = Some r \<and> active (heap st r) = Some False \<longrightarrow>
      get_store_forecast st env g store_id forecast_days = Inr ([], g))"
  by (simp add: get_store_forecast_def get_def)

theorem forecast_unknown_or_inactive_witness:
  "map_of (stores closed_manager) ''almaty_9'' = None \<and>
   get_store_forecast closed_manager friday_env half_tape ''almaty_9'' (Some 7)
     = Inl (ValueError (Store_not_found ''almaty_9'')) \<and>
   map_of (stores closed_manager) ''almaty_2'' = Some 1 \<and>
   active (heap closed_manager 1) = Some False \<and>
   get_store_forecast closed_manager friday_env half_tape ''almaty_2'' (Some 7)
     = Inr ([], half_tape)"
proof -
  have a: "map_of (stores closed_manager) ''almaty_9'' = None"
    by (simp add: closed_manager_def default_manager_def)
  have b: "map_of (stores closed_manager) ''almaty_2'' = Some 1 \<and>
           active (heap closed_manager 1) = Some False"
    by (simp add: closed_manager_def default_manager_def)
  show ?thesis
    using a b
      forecast_unknown_or_inactive [of closed_manager "''almaty_9''" friday_env half_tape
        "Some 7"]
      forecast_unknown_or_inactive [of closed_manager "''almaty_2''" friday_env half_tape
        "Some 7"]
    by blast
qed

subsection \<open>Registration\<close>

lemma add_new_store_fails:
  "check_required (heap st store_config) = Inl e \<Longrightarrow>
     add_new_store st store_id store_config = (Inr False, st)"
  by (simp add: add_new_store_def add_new_store_try_def)

lemma add_new_store_succeeds:
  "check_required (heap st store_config) = Inr () \<Longrightarrow>
     add_new_store st store_id store_config =
       (Inr True,
        save_config (st\<lparr>heap := (heap st)(store_config := set_defaults (heap st store_config)),
                        stores := setitem (stores st) store_id store_config\<rparr>))"
  by (simp add: add_new_store_def add_new_store_try_def Let_def)

lemma check_required_cases:
  "(\<exists>f. check_required c = Inl (ValueError (Missing_required_field f))) \<or>
   check_required c = Inr ()"
  by (simp add: check_required_def)

text \<open>
  Claim C3 says that a registration whose dict lacks a required field fails with a
  validation error that reaches the caller. It does not: the \<open>ValueError\<close> raised by the
  check is caught by the method's own \<open>except Exception\<close>, and the call returns \<open>False\<close>.
  Here the dict lacks \<open>avg_daily_visitors\<close>.
\<close>

theorem registration_missing_field_counterexample:
  "check_required (heap incomplete_manager 3)
     = Inl (ValueError (Missing_required_field ''avg_daily_visitors'')) \<and>
   fst (add_new_store incomplete_manager ''almaty_4'' 3) = Inr False"
  by (simp add: add_new_store_def add_new_store_try_def check_required_def
      incomplete_manager_def default_manager_def new_store_config_def empty_dict_def)

text \<open>
  Claim C3, amended. A registration whose dict lacks one of the six required fields
  returns \<open>False\<close> and raises nothing; the whole state is as before the call: the
  registry (so its store count too), the caller's dict and the configuration file.
\<close>

theorem registration_missing_field:
  assumes "name (heap st store_config) = None \<or> address (heap st store_config) = None \<or>
           type (heap st store_config) = None \<or> size_category (heap st store_config) = None \<or>
           target_audience (heap st store_config) = None \<or>
           avg_daily_visitors (heap st store_config) = None"
  shows "add_new_store st store_id store_config = (Inr False, st) \<and>
         length (stores (snd (add_new_store st store_id store_config))) = length (stores st)"
proof -
  from assms have "check_required (heap st store_config) \<noteq> Inr ()"
    by (auto simp: check_required_Inr)
  then obtain f where
    "check_required (heap st store_config) = Inl (ValueError (Missing_required_field f))"
    using check_required_cases [of "heap st store_config"] by blast
  then have "add_new_store st store_id store_config = (Inr False, st)"
    by (rule add_new_store_fails)
  then show ?thesis by simp
qed

theorem registration_missing_field_witness:
  "avg_daily_visitors (heap incomplete_manager 3) = None \<and>
   add_new_store incomplete_manager ''almaty_4'' 3 = (Inr False, incomplete_manager) \<and>
   length (stores (snd (add_new_store incomplete_manager ''almaty_4'' 3))) = 3"
proof -
  have a: "avg_daily_visitors (heap incomplete_manager 3) = None"
    by (simp add: incomplete_manager_def)
  have l: "length (stores incomplete_manager) = 3"
    by (simp add: incomplete_manager_def default_manager_def)
  show ?thesis
    using a l registration_missing_field [of incomplete_manager 3 "''almaty_4''"] by simp
qed

text \<open>
  Claim C9. A successful registration writes through the caller's reference: afterwards
  the registry maps the store id to that very reference (not to a copy), the dict it
  denotes holds every optional field, with the default where the field was absent and
  the caller's value where it was present, its other fields are as they were, and no
  other object has changed.
\<close>

theorem registration_mutates_argument:
  assumes "add_new_store st store_id store_config = (Inr True, st')"
  shows "map_of (stores st') store_id = Some store_config \<and>
         seasonal_multipliers (heap st' store_config) =
           Some (case seasonal_multipliers (heap st store_config) of
                   None \<Rightarrow> [(''winter'', 0.9), (''spring'', 1.1), (''summer'', 1.0),
                            (''autumn'', 1.0)]
                 | Some v \<Rightarrow> v) \<and>
         holiday_multipliers (heap st' store_config) =
           Some (case holiday_multipliers (heap st store_config) of
                   None \<Rightarrow> [(''WOMENS_DAY'', 4.0), (''VALENTINES'', 1.8), (''NAURYZ'', 2.0)]
                 | Some v \<Rightarrow> v) \<and>
         weather_sensitivity (heap st' store_config) =
           Some (case weather_sensitivity (heap st store_config) of
                   None \<Rightarrow> 0.25 | Some v \<Rightarrow> v) \<and>
         forecast_horizon_days (heap st' store_config) =
           Some (case forecast_horizon_days (heap st store_config) of
                   None \<Rightarrow> 7 | Some v \<Rightarrow> v) \<and>
         safety_stock_ratio (heap st' store_config) =
           Some (case safety_stock_ratio (heap st store_config) of
                   None \<Rightarrow> 1.2 | Some v \<Rightarrow> v) \<and>
         active (heap st' store_config) =
           Some (case active (heap st store_config) of None \<Rightarrow> True | Some v \<Rightarrow> v) \<and>
         name (heap st' store_config) = name (heap st store_config) \<and>
         address (heap st' store_config) = address (heap st store_config) \<and>
         type (heap st' store_config) = type (heap st store_config) \<and>
         size_category (heap st' store_config) = size_category (heap st store_config) \<and>
         opening_hours (heap st' store_config) = opening_hours (heap st store_config) \<and>
         target_audience (heap st' store_config) = target_audience (heap st store_config) \<and>
         avg_daily_visitors (heap st' store_config)
           = avg_daily_visitors (heap st store_config) \<and>
         (\<forall>r. r \<noteq> store_config \<longrightarrow> heap st' r = heap st r)"
proof -
  have ok: "check_required (heap st store_config) = Inr ()"
  proof (rule ccontr)
    assume "check_required (heap st store_config) \<noteq> Inr ()"
    then obtain f where
      "check_required (heap st store_config) = Inl (ValueError (Missing_required_field f))"
      using check_required_cases [of "heap st store_config"] by blast
    then have "add_new_store st store_id store_config = (Inr False, st)"
      by (rule add_new_store_fails)
    with assms show False by simp
  qed
  from add_new_store_succeeds [OF ok, of store_id] assms
  have st': "st' = save_config
      (st\<lparr>heap := (heap st)(store_config := set_defaults (heap st store_config)),
          stores := setitem (stores st) store_id store_config\<rparr>)"
    by simp
  have h: "heap st' = (heap st)(store_config := set_defaults (heap st store_config))"
    by (simp add: st' heap_save_config)
  have s: "stores st' = setitem (stores st) store_id store_config"
    by (simp add: st' stores_save_config)
  show ?thesis
    by (simp add: h s map_of_setitem set_defaults_def get_def split: option.split)
qed

theorem registration_mutates_argument_witness:
  "add_new_store default_manager ''almaty_4'' 3
     = (Inr True, snd (add_new_store default_manager ''almaty_4'' 3)) \<and>
   weather_sensitivity (heap default_manager 3) = None \<and>
   weather_sensitivity (heap (snd (add_new_store default_manager ''almaty_4'' 3)) 3)
     = Some 0.25 \<and>
   active (heap (snd (add_new_store default_manager ''almaty_4'' 3)) 3) = Some True \<and>
   map_of (stores (snd (add_new_store default_manager ''almaty_4'' 3))) ''almaty_4'' = Some 3"
proof -
  have c: "check_required (heap default_manager 3) = Inr ()"
    by (simp add: check_required_def default_manager_def new_store_config_def empty_dict_def)
  have a: "add_new_store default_manager ''almaty_4'' 3
     = (Inr True, snd (add_new_store default_manager ''almaty_4'' 3))"
    by (simp add: add_new_store_succeeds [OF c])
  have n: "weather_sensitivity (heap default_manager 3) = None \<and>
           active (heap default_manager 3) = None"
    by (simp add: default_manager_def new_store_config_def empty_dict_def)
  show ?thesis
    using a n registration_mutates_argument [OF a] by simp
qed

subsection \<open>The holiday factor\<close>

lemma digit_inj:
  assumes "0 \<le> a" "a \<le> 9" "0 \<le> b" "b \<le> 9" "digit a = digit b"
  shows "a = b"
proof -
  have a: "a = 0 \<or> a = 1 \<or> a = 2 \<or> a = 3 \<or> a = 4 \<or> a = 5 \<or> a = 6 \<or> a = 7 \<or> a = 8 \<or> a = 9"
    using assms(1,2) by arith
  have b: "b = 0 \<or> b = 1 \<or> b = 2 \<or> b = 3 \<or> b = 4 \<or> b = 5 \<or> b = 6 \<or> b = 7 \<or> b = 8 \<or> b = 9"
    using assms(3,4) by arith
  from a b assms(5) show ?thesis
    by (elim disjE) (simp_all add: digit_def)
qed

lemma pad2_inj:
  assumes "0 \<le> n" "n < 100" "0 \<le> m" "m < 100" "pad2 n = pad2 m"
  shows "n = m"
proof -
  from assms(5) have d: "digit (n div 10) = digit (m div 10)"
    and u: "digit (n mod 10) = digit (m mod 10)"
    by (simp_all add: pad2_def)
  have "n div 10 = m div 10"
    using assms(1-4) by (intro digit_inj [OF _ _ _ _ d]) auto
  moreover have "n mod 10 = m mod 10"
    using assms(1-4) by (intro digit_inj [OF _ _ _ _ u]) auto
  ultimately show ?thesis
    by (metis mult_div_mod_eq)
qed

lemma strftime_md_eq:
  assumes "0 \<le> month d" "month d < 100" "0 \<le> day d" "day d < 100"
    and "0 \<le> m" "m < 100" "0 \<le> n" "n < 100"
  shows "strftime_md d = pad2 m @ ''-'' @ pad2 n \<longleftrightarrow> month d = m \<and> day d = n"
proof
  assume "strftime_md d = pad2 m @ ''-'' @ pad2 n"
  then have "pad2 (month d) = pad2 m" and "pad2 (day d) = pad2 n"
    by (simp_all add: strftime_md_def pad2_def)
  then show "month d = m \<and> day d = n"
    using assms by (auto intro: pad2_inj)
next
  assume "month d = m \<and> day d = n"
  then show "strftime_md d = pad2 m @ ''-'' @ pad2 n"
    by (simp add: strftime_md_def)
qed

lemma valid_date_md:
  "valid_date d \<Longrightarrow> 0 \<le> month d \<and> month d < 100 \<and> 0 \<le> day d \<and> day d < 100"
  by (auto simp: valid_date_def days_in_month_def days_in_month_of_def split: if_splits)

lemma strftime_md_holidays:
  assumes "valid_date d"
  shows "strftime_md d = ''03-08'' \<longleftrightarrow> month d = 3 \<and> day d = 8"
    and "strftime_md d = ''02-14'' \<longleftrightarrow> month d = 2 \<and> day d = 14"
    and "strftime_md d = ''03-21'' \<longleftrightarrow> month d = 3 \<and> day d = 21"
proof -
  note r = valid_date_md [OF assms]
  have "strftime_md d = pad2 3 @ ''-'' @ pad2 8 \<longleftrightarrow> month d = 3 \<and> day d = 8"
    using r by (intro strftime_md_eq) auto
  then show "strftime_md d = ''03-08'' \<longleftrightarrow> month d = 3 \<and> day d = 8"
    by (simp add: pad2_def digit_def)
  have "strftime_md d = pad2 2 @ ''-'' @ pad2 14 \<longleftrightarrow> month d = 2 \<and> day d = 14"
    using r by (intro strftime_md_eq) auto
  then show "strftime_md d = ''02-14'' \<longleftrightarrow> month d = 2 \<and> day d = 14"
    by (simp add: pad2_def digit_def)
  have "strftime_md d = pad2 3 @ ''-'' @ pad2 21 \<longleftrightarrow> month d = 3 \<and> day d = 21"
    using r by (intro strftime_md_eq) auto
  then show "strftime_md d = ''03-21'' \<longleftrightarrow> month d = 3 \<and> day d = 21"
    by (simp add: pad2_def digit_def)
qed

text \<open>
  Claim C7. For every date and every store configuration with a holiday table, the
  holiday factor is the table's multiplier for \<open>WOMENS_DAY\<close> on 8 March, for
  \<open>VALENTINES\<close> on 14 February and for \<open>NAURYZ\<close> on 21 March (1.0 where the table has
  no such code), and 1.0 on every other date: only the exact month and day count, the
  days around a holiday get no factor.
\<close>

theorem holiday_factor_exact_date:
  assumes "valid_date d" and "holiday_multipliers c = Some hm"
  shows "get_holiday_multiplier d c =
           Inr (if month d = 3 \<and> day d = 8 then get (map_of hm ''WOMENS_DAY'') 1.0
                else if month d = 2 \<and> day d = 14 then get (map_of hm ''VALENTINES'') 1.0
                else if month d = 3 \<and> day d = 21 then get (map_of hm ''NAURYZ'') 1.0
                else 1.0)"
proof -
  have eq: "\<And>s. (''03-08'' = s) = (s = ''03-08'')" "\<And>s. (''02-14'' = s) = (s = ''02-14'')"
    "\<And>s. (''03-21'' = s) = (s = ''03-21'')"
    by auto
  show ?thesis
    using strftime_md_holidays [OF assms(1)] assms(2)
    by (auto simp add: get_holiday_multiplier_def subscript_def Let_def get_def eq
        simp del: One_nat_def)
qed

theorem holiday_factor_exact_date_witness:
  "valid_date \<lparr>year = 2025, month = 3, day = 8\<rparr> \<and>
   valid_date \<lparr>year = 2025, month = 3, day = 7\<rparr> \<and>
   holiday_multipliers almaty_1
     = Some [(''WOMENS_DAY'', 4.5), (''VALENTINES'', 2.0), (''NAURYZ'', 2.2)] \<and>
   get_holiday_multiplier \<lparr>year = 2025, month = 3, day = 8\<rparr> almaty_1 = Inr 4.5 \<and>
   get_holiday_multiplier \<lparr>year = 2025, month = 3, day = 7\<rparr> almaty_1 = Inr 1.0"
proof -
  have v: "valid_date \<lparr>year = 2025, month = 3, day = 8\<rparr>"
    "valid_date \<lparr>year = 2025, month = 3, day = 7\<rparr>"
    by (simp_all add: valid_date_def days_in_month_def days_in_month_of_def)
  have h: "holiday_multipliers almaty_1
     = Some [(''WOMENS_DAY'', 4.5), (''VALENTINES'', 2.0), (''NAURYZ'', 2.2)]"
    by (simp add: almaty_1_def)
  show ?thesis
    using v h holiday_factor_exact_date [OF v(1) h] holiday_factor_exact_date [OF v(2) h]
    by (simp add: get_def)
qed

subsection \<open>Floats and the random source\<close>

lemma py_int_Inr:
  assumes "py_int x = Inr n"
  obtains y where "x = Finite y" and "n = trunc y"
  using assms by (cases x) auto

lemma fmul_Finite:
  assumes "fmul p y = Finite z"
  obtains x where "p = Finite x" and "z = x * y"
  using assms by (cases p) (auto simp: float_result_def split: if_splits)

lemma fsub_Finite:
  assumes "fsub p y = Finite z"
  obtains x where "p = Finite x" and "z = x - y"
  using assms by (cases p) (auto simp: float_result_def split: if_splits)

lemma demand_Inr:
  assumes "py_int (fmul (fmul (fmul (fmul (Finite a) b) c) d) e) = Inr n"
  shows "n = trunc (a * b * c * d * e)"
proof -
  from assms obtain y where y: "fmul (fmul (fmul (fmul (Finite a) b) c) d) e = Finite y"
    and n: "n = trunc y" by (rule py_int_Inr)
  from y obtain y3 where y3: "fmul (fmul (fmul (Finite a) b) c) d = Finite y3"
    and "y = y3 * e" by (rule fmul_Finite)
  moreover from y3 obtain y2 where y2: "fmul (fmul (Finite a) b) c = Finite y2"
    and "y3 = y2 * d" by (rule fmul_Finite)
  moreover from y2 obtain y1 where y1: "fmul (Finite a) b = Finite y1"
    and "y2 = y1 * c" by (rule fmul_Finite)
  moreover from y1 have "y1 = a * b" by (simp add: float_result_def split: if_splits)
  ultimately show ?thesis using n by simp
qed

lemma purchase_Inr:
  assumes "py_int (fsub (fmul (Finite a) b) c) = Inr n"
  shows "n = trunc (a * b - c)"
proof -
  from assms obtain y where y: "fsub (fmul (Finite a) b) c = Finite y"
    and n: "n = trunc y" by (rule py_int_Inr)
  from y obtain y1 where y1: "fmul (Finite a) b = Finite y1" and "y = y1 - c"
    by (rule fsub_Finite)
  moreover from y1 have "y1 = a * b" by (simp add: float_result_def split: if_splits)
  ultimately show ?thesis using n by simp
qed

lemma fmul_no_overflow: "\<not> overflows (x * y) \<Longrightarrow> fmul (Finite x) y = Finite (x * y)"
  by (simp add: float_result_def)

lemma fsub_no_overflow: "\<not> overflows (x - y) \<Longrightarrow> fsub (Finite x) y = Finite (x - y)"
  by (simp add: float_result_def)

lemma random_sample_range: "0 \<le> fst (random_sample g) \<and> fst (random_sample g) < 1"
  by (simp add: random_sample_def frac_lt_1)

lemma randint_range:
  assumes "low < high"
  shows "low \<le> fst (randint low high g) \<and> fst (randint low high g) < high"
proof -
  obtain u g' where s: "random_sample g = (u, g')" by (cases "random_sample g")
  with random_sample_range [of g] have u: "0 \<le> u" "u < 1" by simp_all
  have p: "0 < real_of_int (high - low)" using assms by simp
  have "0 \<le> u * of_int (high - low)" using u(1) p by simp
  then have lo: "0 \<le> \<lfloor>u * of_int (high - low)\<rfloor>" by simp
  have "u * of_int (high - low) < of_int (high - low)" using u(2) p by simp
  then have hi: "\<lfloor>u * of_int (high - low)\<rfloor> < high - low" by (simp add: floor_less_iff)
  show ?thesis using lo hi by (simp add: randint_def s)
qed

lemma uniform_range:
  assumes "uniform low high g = Inr (x, g')" and "low \<le> high"
  shows "low \<le> x \<and> x \<le> high"
proof -
  obtain u g1 where s: "random_sample g = (u, g1)" by (cases "random_sample g")
  with random_sample_range [of g] have u: "0 \<le> u" "u < 1" by simp_all
  have d: "0 \<le> high - low" using assms(2) by simp
  have a: "0 \<le> (high - low) * u" using u(1) d by simp
  have "(high - low) * u \<le> (high - low) * 1" using u(2) d by (intro mult_left_mono) auto
  moreover from assms(1) have "x = low + (high - low) * u"
    by (auto simp: uniform_def s split: if_splits)
  ultimately show ?thesis using a by simp
qed

subsection \<open>The rows of a forecast\<close>

lemma forecast_row_fields:
  assumes "forecast_row store_id c env d sku g = Inr (r, g')"
  shows "\<exists>base_demand g1 sm holiday_mult weather_mult g2.
           randint (fst (base_demand_range c)) (snd (base_demand_range c)) g = (base_demand, g1) \<and>
           seasonal_multipliers c = Some sm \<and>
           get_holiday_multiplier d c = Inr holiday_mult \<and>
           get_weather_multiplier c g1 = Inr (weather_mult, g2) \<and>
           randint 0 25 g2 = (Current_stock r, g') \<and>
           Demand r = trunc (of_int base_demand * get (map_of sm (get_season d)) 1.0
                        * (if weekday d \<in> set [5, 6] then 1.3 else 1.0)
                        * holiday_mult * weather_mult) \<and>
           Recommended_purchase r =
             max 0 (trunc (of_int (Demand r) * get (safety_stock_ratio c) 1.2
                            - of_int (Current_stock r))) \<and>
           Priority r = classify (Recommended_purchase r) (Demand r) \<and>
           Date r = strftime_ymd d \<and> SKU r = sku \<and> Store r = store_id"
proof -
  from assms obtain base_demand g1 sm holiday_mult weather_mult g2 final_demand
    current_stock purchase store_name where
    b: "randint (fst (base_demand_range c)) (snd (base_demand_range c)) g = (base_demand, g1)"
    and sm: "seasonal_multipliers c = Some sm"
    and h: "get_holiday_multiplier d c = Inr holiday_mult"
    and w: "get_weather_multiplier c g1 = Inr (weather_mult, g2)"
    and fd: "py_int (fmul (fmul (fmul (fmul (Finite (of_int base_demand))
                (get (map_of sm (get_season d)) 1.0))
                (if weekday d \<in> set [5, 6] then 1.3 else 1.0)) holiday_mult) weather_mult)
             = Inr final_demand"
    and cs: "randint 0 25 g2 = (current_stock, g')"
    and pu: "py_int (fsub (fmul (Finite (of_int final_demand)) (get (safety_stock_ratio c) 1.2))
                (of_int current_stock)) = Inr purchase"
    and r: "r = \<lparr>Date = strftime_ymd d, Weekday_name = strftime_A env d, Store = store_id,
                Store_name = store_name, SKU = sku, Demand = final_demand,
                Current_stock = current_stock,
                Recommended_purchase = max 0 purchase,
                Priority = classify (max 0 purchase) final_demand,
                Seasonal_coef = get (map_of sm (get_season d)) 1.0,
                Holiday_coef = holiday_mult, Weather_coef = weather_mult\<rparr>"
    by (auto simp: forecast_row_def Let_def subscript_def
        split: prod.splits sum.splits option.splits)
  from demand_Inr [OF fd] purchase_Inr [OF pu] b sm h w cs show ?thesis
    by (simp add: r)
qed

lemma sku_loop_row:
  "sku_loop store_id c env d skus g = Inr (rs, g') \<Longrightarrow> r \<in> set rs \<Longrightarrow>
     \<exists>sku g1 g2. forecast_row store_id c env d sku g1 = Inr (r, g2)"
proof (induction skus arbitrary: g rs)
  case Nil
  then show ?case by simp
next
  case (Cons sku skus)
  from Cons.prems(1) obtain r0 g0 rs0 where
    r0: "forecast_row store_id c env d sku g = Inr (r0, g0)" and
    rs0: "sku_loop store_id c env d skus g0 = Inr (rs0, g')" and
    rs: "rs = r0 # rs0"
    by (auto split: sum.splits prod.splits)
  show ?case
  proof (cases "r = r0")
    case True
    with r0 show ?thesis by blast
  next
    case False
    with Cons.prems(2) rs have "r \<in> set rs0" by simp
    from Cons.IH [OF rs0 this] show ?thesis .
  qed
qed

lemma day_loop_row:
  "day_loop store_id c env ks g = Inr (rs, g') \<Longrightarrow> r \<in> set rs \<Longrightarrow>
     \<exists>k d sku g1 g2. k \<in> set ks \<and> add_days (now env k) (int k) = Inr d \<and>
        forecast_row store_id c env d sku g1 = Inr (r, g2)"
proof (induction ks arbitrary: g rs)
  case Nil
  then show ?case by simp
next
  case (Cons k ks)
  from Cons.prems(1) obtain d rs1 g1 rs2 where
    d: "add_days (now env k) (int k) = Inr d" and
    rs1: "sku_loop store_id c env d (skus_of c) g = Inr (rs1, g1)" and
    rs2: "day_loop store_id c env ks g1 = Inr (rs2, g')" and
    rs: "rs = rs1 @ rs2"
    by (auto split: sum.splits prod.splits)
  from Cons.prems(2) rs consider "r \<in> set rs1" | "r \<in> set rs2" by auto
  then show ?case
  proof cases
    case 1
    from sku_loop_row [OF rs1 1] obtain sku g2 g3 where
      "forecast_row store_id c env d sku g2 = Inr (r, g3)" by blast
    with d show ?thesis by (intro exI [of _ k] exI [of _ d]) auto
  next
    case 2
    from Cons.IH [OF rs2 2] obtain k' d' sku g2 g3 where
      "k' \<in> set ks" "add_days (now env k') (int k') = Inr d'"
      "forecast_row store_id c env d' sku g2 = Inr (r, g3)" by blast
    then show ?thesis by (intro exI [of _ k'] exI [of _ d']) auto
  qed
qed

lemma get_store_forecast_row:
  assumes "get_store_forecast st env g store_id forecast_days = Inr (rs, g')" and "r \<in> set rs"
  shows "\<exists>ref k d sku g1 g2. map_of (stores st) store_id = Some ref \<and>
           add_days (now env k) (int k) = Inr d \<and>
           forecast_row store_id (heap st ref) env d sku g1 = Inr (r, g2)"
proof -
  from assms obtain ref where ref: "map_of (stores st) store_id = Some ref"
    by (auto simp: get_store_forecast_def split: option.splits)
  from assms ref obtain ks where
    "day_loop store_id (heap st ref) env ks g = Inr (rs, g')"
    by (auto simp: get_store_forecast_def generate_store_specific_forecast_def
        subscript_def Let_def split: if_splits)
  from day_loop_row [OF this assms(2)] ref show ?thesis by blast
qed

lemma trunc_nonneg: "0 \<le> x \<Longrightarrow> 0 \<le> trunc x"
  by (simp add: trunc_def)

lemma get_holiday_multiplier_nonneg:
  assumes "get_holiday_multiplier d c = Inr h"
    and "\<forall>hm k v. holiday_multipliers c = Some hm \<and> map_of hm k = Some v \<longrightarrow> 0 \<le> v"
  shows "0 \<le> h"
proof -
  from assms(1) obtain hm where hm: "holiday_multipliers c = Some hm"
    by (auto simp: get_holiday_multiplier_def subscript_def split: option.splits)
  have v: "0 \<le> get (map_of hm k) 1" for k
    using assms(2) hm by (cases "map_of hm k") (auto simp: get_def)
  from assms(1) hm show ?thesis
    using v [of "''WOMENS_DAY''"] v [of "''VALENTINES''"] v [of "''NAURYZ''"]
    by (auto simp: get_holiday_multiplier_def subscript_def Let_def get_def
        split: if_splits)
qed

lemma get_weather_multiplier_nonneg:
  assumes "\<forall>s. weather_sensitivity c = Some s \<longrightarrow> 0 \<le> s \<and> s \<le> 1"
    and "get_weather_multiplier c g = Inr (w, g')"
  shows "0 \<le> w"
proof -
  define s where "s = get (weather_sensitivity c) 0.25"
  have s: "0 \<le> s" "s \<le> 1"
    using assms(1) by (auto simp: s_def get_def split: option.splits)
  from assms(2) obtain x where u: "uniform (- s) s g = Inr (x, g')" and w: "w = 1 + x"
    by (auto simp: get_weather_multiplier_def s_def Let_def split: sum.splits)
  from s have "- s \<le> s" by simp
  from uniform_range [OF u this] s w show ?thesis by simp
qed


subsection \<open>The example forecast\<close>

lemma toordinal_friday: "toordinal \<lparr>year = 2025, month = 3, day = 7\<rparr> = 739317"
  by (simp add: toordinal_def days_before_year_def days_before_month_def
      days_before_month_of_def is_leap_def)

lemma fromordinal_friday: "fromordinal 739317 = \<lparr>year = 2025, month = 3, day = 7\<rparr>"
  by (simp add: fromordinal_def days_before_month_of_def days_in_month_of_def Let_def)

lemma weekday_friday: "weekday \<lparr>year = 2025, month = 3, day = 7\<rparr> = 4"
  by (simp add: weekday_def toordinal_friday)

lemma strftime_friday:
  "strftime_ymd \<lparr>year = 2025, month = 3, day = 7\<rparr> = ''2025-03-07''"
  "strftime_A friday_env \<lparr>year = 2025, month = 3, day = 7\<rparr> = ''Friday''"
  "strftime_md \<lparr>year = 2025, month = 3, day = 7\<rparr> = ''03-07''"
  by (simp_all add: strftime_ymd_def strftime_md_def strftime_Y_def pad2_def digit_def
      strftime_A_def weekday_friday friday_env_def c_day_name_def)

lemma small_no_overflow: "\<bar>x\<bar> \<le> 1000 \<Longrightarrow> \<not> overflows x"
  by (simp add: overflows_def)

lemma small_result: "\<bar>x\<bar> \<le> 1000 \<Longrightarrow> float_result x = Finite x"
  by (simp add: float_result_def small_no_overflow)

lemma randint_half:
  "randint low high \<lparr>tape = (\<lambda>k. 1 / 2), pos = p\<rparr>
     = (low + \<lfloor>of_int (high - low) / (2::real)\<rfloor>, \<lparr>tape = (\<lambda>k. 1 / 2), pos = Suc p\<rparr>)"
  by (simp add: randint_def random_sample_def frac_def)

lemma uniform_half:
  "\<not> overflows (s - (- s)) \<Longrightarrow>
     uniform (- s) s \<lparr>tape = (\<lambda>k. 1 / 2), pos = p\<rparr>
       = Inr (0, \<lparr>tape = (\<lambda>k. 1 / 2), pos = Suc p\<rparr>)"
  by (simp add: uniform_def random_sample_def frac_def)

lemma friday_forecast_row:
  assumes "type c = Some ''premium''" and "name c = Some Almaty_TsUM"
    and "seasonal_multipliers c
           = Some [(''winter'', 0.8), (''spring'', 1.2), (''summer'', 1.0), (''autumn'', 1.1)]"
    and "holiday_multipliers c
           = Some [(''WOMENS_DAY'', 4.5), (''VALENTINES'', 2.0), (''NAURYZ'', 2.2)]"
    and "weather_sensitivity c = Some 0.3"
    and "safety_stock_ratio c = Some ratio" and "\<bar>ratio\<bar> \<le> 2"
  shows "forecast_row ''almaty_1'' c friday_env \<lparr>year = 2025, month = 3, day = 7\<rparr> sku
           \<lparr>tape = (\<lambda>k. 1 / 2), pos = p\<rparr>
         = Inr (friday_row (max 0 (trunc (32 * ratio - 12)))
                  (classify (max 0 (trunc (32 * ratio - 12))) 32) sku,
                \<lparr>tape = (\<lambda>k. 1 / 2), pos = Suc (Suc (Suc p))\<rparr>)"
proof -
  have h: "get_holiday_multiplier \<lparr>year = 2025, month = 3, day = 7\<rparr> c = Inr 1"
    by (simp add: get_holiday_multiplier_def assms(4) subscript_def strftime_friday get_def)
  have "\<not> overflows (0.3 - (- 0.3))" by (rule small_no_overflow) simp
  then have w: "get_weather_multiplier c \<lparr>tape = (\<lambda>k. 1 / 2), pos = q\<rparr>
             = Inr (1, \<lparr>tape = (\<lambda>k. 1 / 2), pos = Suc q\<rparr>)" for q
    by (simp add: get_weather_multiplier_def uniform_half Let_def assms(5) get_def)
  have d: "py_int (fmul (fmul (fmul (fmul (Finite 27) (12 / 10)) 1) 1) 1) = Inr 32"
    by (simp add: small_result trunc_def)
  have "\<bar>32 * ratio\<bar> \<le> 1000" "\<bar>32 * ratio - 12\<bar> \<le> 1000"
    using assms(7) by (simp_all add: abs_if split: if_splits)
  then have u: "float_result (32 * ratio) = Finite (32 * ratio)"
    "float_result (32 * ratio - 12) = Finite (32 * ratio - 12)"
    by (simp_all add: small_result)
  have e: "forecast_row ''almaty_1'' c friday_env \<lparr>year = 2025, month = 3, day = 7\<rparr> sku
           \<lparr>tape = (\<lambda>k. 1 / 2), pos = p\<rparr>
      = (case py_int (fmul (fmul (fmul (fmul (Finite 27) (12 / 10)) 1) 1) 1) of
           Inl e \<Rightarrow> Inl e
         | Inr final_demand \<Rightarrow>
             (case py_int (fsub (fmul (Finite (of_int final_demand)) ratio) 12) of
                Inl e \<Rightarrow> Inl e
              | Inr n \<Rightarrow>
                  Inr (friday_row (max 0 n) (classify (max 0 n) final_demand)
                         sku
                       \<lparr>Demand := final_demand\<rparr>,
                       \<lparr>tape = (\<lambda>k. 1 / 2), pos = Suc (Suc (Suc p))\<rparr>)))"
    by (simp add: forecast_row_def Let_def h w randint_half base_demand_range_def
        assms(1-3,6) weekday_friday strftime_friday get_def subscript_def get_season_def
        friday_row_def split: sum.splits)
  show ?thesis
    unfolding e d by (simp add: u friday_row_def)
qed

lemma friday_forecast:
  assumes "map_of (stores st) ''almaty_1'' = Some ref" and "active (heap st ref) = Some True"
    and "type (heap st ref) = Some ''premium''" and "name (heap st ref) = Some Almaty_TsUM"
    and "seasonal_multipliers (heap st ref)
           = Some [(''winter'', 0.8), (''spring'', 1.2), (''summer'', 1.0), (''autumn'', 1.1)]"
    and "holiday_multipliers (heap st ref)
           = Some [(''WOMENS_DAY'', 4.5), (''VALENTINES'', 2.0), (''NAURYZ'', 2.2)]"
    and "weather_sensitivity (heap st ref) = Some 0.3"
    and "safety_stock_ratio (heap st ref) = Some ratio" and "\<bar>ratio\<bar> \<le> 2"
  shows "get_store_forecast st friday_env half_tape ''almaty_1'' (Some 1)
         = Inr (map (friday_row (max 0 (trunc (32 * ratio - 12)))
                       (classify (max 0 (trunc (32 * ratio - 12))) 32)) premium_skus,
                half_tape\<lparr>pos := 18\<rparr>)"
proof -
  have d: "add_days (now friday_env 0) (int 0) = Inr \<lparr>year = 2025, month = 3, day = 7\<rparr>"
    by (simp add: add_days_def friday_env_def toordinal_friday fromordinal_friday
        max_ordinal_def)
  have s: "skus_of (heap st ref) = premium_skus"
    by (simp add: skus_of_def assms(3) get_def)
  have l: "sku_loop ''almaty_1'' (heap st ref) friday_env \<lparr>year = 2025, month = 3, day = 7\<rparr>
             premium_skus \<lparr>tape = (\<lambda>k. 1 / 2), pos = 0\<rparr>
           = Inr (map (friday_row (max 0 (trunc (32 * ratio - 12)))
                       (classify (max 0 (trunc (32 * ratio - 12))) 32)) premium_skus,
                  \<lparr>tape = (\<lambda>k. 1 / 2), pos = 18\<rparr>)"
    by (simp add: premium_skus_def friday_forecast_row [OF assms(3-9)])
  have "day_loop ''almaty_1'' (heap st ref) friday_env [0] \<lparr>tape = (\<lambda>k. 1 / 2), pos = 0\<rparr>
           = Inr (map (friday_row (max 0 (trunc (32 * ratio - 12)))
                       (classify (max 0 (trunc (32 * ratio - 12))) 32)) premium_skus,
                  \<lparr>tape = (\<lambda>k. 1 / 2), pos = 18\<rparr>)"
    using d by (simp add: s l)
  then show ?thesis
    by (simp add: get_store_forecast_def generate_store_specific_forecast_def assms(1,2)
        subscript_def get_def half_tape_def)
qed

lemma default_manager_almaty_1:
  "map_of (stores default_manager) ''almaty_1'' = Some 0" "heap default_manager 0 = almaty_1"
  by (simp_all add: default_manager_def)

lemma almaty_1_fields:
  "active almaty_1 = Some True" "type almaty_1 = Some ''premium''"
  "name almaty_1 = Some Almaty_TsUM"
  "seasonal_multipliers almaty_1
     = Some [(''winter'', 0.8), (''spring'', 1.2), (''summer'', 1.0), (''autumn'', 1.1)]"
  "holiday_multipliers almaty_1
     = Some [(''WOMENS_DAY'', 4.5), (''VALENTINES'', 2.0), (''NAURYZ'', 2.2)]"
  "weather_sensitivity almaty_1 = Some 0.3"
  "safety_stock_ratio almaty_1 = Some 1.2"
  by (simp_all add: almaty_1_def)

lemma default_friday_forecast:
  "get_store_forecast default_manager friday_env half_tape ''almaty_1'' (Some 1)
     = Inr (map (friday_row 26 Medium) premium_skus, half_tape\<lparr>pos := 18\<rparr>)"
proof -
  have "max 0 (trunc (32 * 1.2 - 12)) = 26" by (simp add: trunc_def)
  moreover have "classify 26 32 = Medium" by (simp add: classify_def)
  ultimately show ?thesis
    using friday_forecast [of default_manager 0 "1.2"]
    by (simp add: default_manager_almaty_1 almaty_1_fields)
qed


lemma pion_in_rows: "friday_row p q Pion_import \<in> set (map (friday_row p q) premium_skus)"
  by (simp add: premium_skus_def)

subsection \<open>Priority, signs and the purchase bound\<close>

text \<open>
  Claim C2. In every row of a forecast the priority follows the rule: it is high when
  the recommended purchase exceeds the demand, medium when the recommended purchase is
  at most the demand but more than half of it, and low otherwise.
\<close>

theorem priority_rule:
  assumes "get_store_forecast st env g store_id forecast_days = Inr (rows, g')"
    and "r \<in> set rows"
  shows "(Recommended_purchase r > Demand r \<longrightarrow> Priority r = High) \<and>
         (of_int (Demand r) * (0.5 :: real) < of_int (Recommended_purchase r) \<and>
            Recommended_purchase r \<le> Demand r \<longrightarrow> Priority r = Medium) \<and>
         (\<not> Recommended_purchase r > Demand r \<and>
            \<not> (of_int (Demand r) * (0.5 :: real) < of_int (Recommended_purchase r) \<and>
               Recommended_purchase r \<le> Demand r) \<longrightarrow> Priority r = Low)"
proof -
  from get_store_forecast_row [OF assms] obtain c d sku g1 g2 where
    "forecast_row store_id c env d sku g1 = Inr (r, g2)" by blast
  from forecast_row_fields [OF this]
  have "Priority r = classify (Recommended_purchase r) (Demand r)" by blast
  then show ?thesis by (auto simp: classify_def)
qed

theorem priority_rule_witness:
  "get_store_forecast default_manager friday_env half_tape ''almaty_1'' (Some 1)
     = Inr (map (friday_row 26 Medium) premium_skus, half_tape\<lparr>pos := 18\<rparr>) \<and>
   friday_row 26 Medium Pion_import \<in> set (map (friday_row 26 Medium) premium_skus) \<and>
   of_int (Demand (friday_row 26 Medium Pion_import)) * (0.5 :: real)
     < of_int (Recommended_purchase (friday_row 26 Medium Pion_import)) \<and>
   Recommended_purchase (friday_row 26 Medium Pion_import)
     \<le> Demand (friday_row 26 Medium Pion_import) \<and>
   Priority (friday_row 26 Medium Pion_import) = Medium"
proof -
  have v: "of_int (Demand (friday_row 26 Medium Pion_import)) * (0.5 :: real)
     < of_int (Recommended_purchase (friday_row 26 Medium Pion_import)) \<and>
   Recommended_purchase (friday_row 26 Medium Pion_import)
     \<le> Demand (friday_row 26 Medium Pion_import)"
    by (simp add: friday_row_def)
  show ?thesis
    using v priority_rule [OF default_friday_forecast pion_in_rows]
      default_friday_forecast pion_in_rows
    by blast
qed

text \<open>
  Claim C6. For a store whose seasonal and holiday multipliers are non-negative and whose
  weather sensitivity lies in \<open>[0, 1]\<close>, every row of a forecast has a non-negative demand
  and a non-negative recommended purchase.
\<close>

theorem rows_nonnegative:
  assumes "get_store_forecast st env g store_id forecast_days = Inr (rows, g')"
    and "r \<in> set rows"
    and "map_of (stores st) store_id = Some ref"
    and "\<forall>sm k v. seasonal_multipliers (heap st ref) = Some sm \<and> map_of sm k = Some v
           \<longrightarrow> 0 \<le> v"
    and "\<forall>hm k v. holiday_multipliers (heap st ref) = Some hm \<and> map_of hm k = Some v
           \<longrightarrow> 0 \<le> v"
    and "\<forall>s. weather_sensitivity (heap st ref) = Some s \<longrightarrow> 0 \<le> s \<and> s \<le> 1"
  shows "0 \<le> Demand r \<and> 0 \<le> Recommended_purchase r"
proof -
  define c where "c = heap st ref"
  from get_store_forecast_row [OF assms(1,2)] assms(3) obtain d sku g1 g2 where
    "forecast_row store_id c env d sku g1 = Inr (r, g2)" by (auto simp: c_def)
  from forecast_row_fields [OF this] obtain base_demand g3 sm holiday_mult weather_mult g4
    where b: "randint (fst (base_demand_range c)) (snd (base_demand_range c)) g1
                = (base_demand, g3)"
      and sm: "seasonal_multipliers c = Some sm"
      and h: "get_holiday_multiplier d c = Inr holiday_mult"
      and w: "get_weather_multiplier c g3 = Inr (weather_mult, g4)"
      and dem: "Demand r = trunc (of_int base_demand * get (map_of sm (get_season d)) 1.0
                        * (if weekday d \<in> set [5, 6] then 1.3 else 1.0)
                        * holiday_mult * weather_mult)"
      and rp: "Recommended_purchase r =
             max 0 (trunc (of_int (Demand r) * get (safety_stock_ratio c) 1.2
                            - of_int (Current_stock r)))"
    by blast
  have "fst (base_demand_range c) < snd (base_demand_range c)"
    by (simp add: base_demand_range_def Let_def)
  from randint_range [OF this, of g1] b have b0: "0 \<le> base_demand"
    by (auto simp: base_demand_range_def Let_def split: if_splits)
  have s0: "0 \<le> get (map_of sm (get_season d)) 1.0"
    using assms(4) sm by (cases "map_of sm (get_season d)") (auto simp: get_def c_def)
  have h0: "0 \<le> holiday_mult"
    using get_holiday_multiplier_nonneg [OF h] assms(5) by (simp add: c_def)
  have w0: "0 \<le> weather_mult"
    using get_weather_multiplier_nonneg [OF _ w] assms(6) by (simp add: c_def)
  have e0: "(0::real) \<le> (if weekday d \<in> set [5, 6] then 1.3 else 1.0)" by simp
  have "0 \<le> of_int base_demand * get (map_of sm (get_season d)) 1.0
                        * (if weekday d \<in> set [5, 6] then 1.3 else 1.0)
                        * holiday_mult * weather_mult"
    using b0 s0 h0 w0 e0 by (intro mult_nonneg_nonneg) simp_all
  then have "0 \<le> Demand r" unfolding dem by (rule trunc_nonneg)
  moreover have "0 \<le> Recommended_purchase r" unfolding rp by simp
  ultimately show ?thesis ..
qed

theorem rows_nonnegative_witness:
  "get_store_forecast default_manager friday_env half_tape ''almaty_1'' (Some 1)
     = Inr (map (friday_row 26 Medium) premium_skus, half_tape\<lparr>pos := 18\<rparr>) \<and>
   friday_row 26 Medium Pion_import \<in> set (map (friday_row 26 Medium) premium_skus) \<and>
   map_of (stores default_manager) ''almaty_1'' = Some 0 \<and>
   weather_sensitivity (heap default_manager 0) = Some 0.3 \<and>
   0 \<le> Demand (friday_row 26 Medium Pion_import) \<and>
   0 \<le> Recommended_purchase (friday_row 26 Medium Pion_import)"
proof -
  have s: "\<forall>sm k v. seasonal_multipliers (heap default_manager 0) = Some sm \<and>
             map_of sm k = Some v \<longrightarrow> 0 \<le> v"
    by (auto simp: default_manager_almaty_1 almaty_1_fields split: if_splits)
  have h: "\<forall>hm k v. holiday_multipliers (heap default_manager 0) = Some hm \<and>
             map_of hm k = Some v \<longrightarrow> 0 \<le> v"
    by (auto simp: default_manager_almaty_1 almaty_1_fields split: if_splits)
  have w: "\<forall>s. weather_sensitivity (heap default_manager 0) = Some s \<longrightarrow> 0 \<le> s \<and> s \<le> 1"
    by (simp add: default_manager_almaty_1 almaty_1_fields)
  have w': "weather_sensitivity (heap default_manager 0) = Some 0.3"
    by (simp add: default_manager_almaty_1 almaty_1_fields)
  show ?thesis
    using rows_nonnegative [OF default_friday_forecast pion_in_rows
        default_manager_almaty_1(1) s h w]
      default_friday_forecast pion_in_rows default_manager_almaty_1(1) w'
    by blast
qed




subsection \<open>The number of rows\<close>

lemma length_skus_of: "length (skus_of c) = 6"
  by (simp add: skus_of_def Let_def premium_skus_def mass_market_skus_def business_skus_def)

lemma skus_of_type:
  "skus_of c =
     (if type c = Some ''premium'' then premium_skus
      else if type c = None \<or> type c = Some ''mass_market'' then mass_market_skus
      else business_skus)"
  by (cases "type c") (simp_all add: skus_of_def Let_def get_def)

lemma no_overflow:
  assumes "\<bar>x\<bar> \<le> 2 ^ n" and "n \<le> 1023"
  shows "\<not> overflows x"
proof -
  have "(2::real) ^ n \<le> 2 ^ 1023" using assms(2) by (intro power_increasing) simp_all
  moreover have "(2::real) ^ 1023 < 2 ^ 1024 - 2 ^ 970" by simp
  ultimately show ?thesis using assms(1) by (simp add: overflows_def)
qed

lemma abs_mult_power:
  fixes x y :: real
  assumes "\<bar>x\<bar> \<le> 2 ^ a" and "\<bar>y\<bar> \<le> 2 ^ b"
  shows "\<bar>x * y\<bar> \<le> 2 ^ (a + b)"
  using mult_mono [OF assms] by (simp add: abs_mult power_add)

lemma abs_trunc: "\<bar>real_of_int (trunc x)\<bar> \<le> \<bar>x\<bar>"
proof (cases "0 \<le> x")
  case True
  then have "0 \<le> \<lfloor>x\<rfloor>" by simp
  with True show ?thesis by (simp add: trunc_def)
next
  case False
  then have "\<lceil>x\<rceil> \<le> 0" by (simp add: ceiling_le_zero)
  moreover have "x \<le> real_of_int \<lceil>x\<rceil>" by simp
  ultimately show ?thesis using False by (simp add: trunc_def)
qed

lemma demand_no_overflow:
  assumes "\<bar>a\<bar> \<le> 2 ^ 6" and "\<bar>b\<bar> \<le> 2 ^ 100" and "\<bar>c\<bar> \<le> 2 ^ 1" and "\<bar>d\<bar> \<le> 2 ^ 100"
    and "\<bar>e\<bar> \<le> 2 ^ 101"
  shows "py_int (fmul (fmul (fmul (fmul (Finite a) b) c) d) e)
           = Inr (trunc (a * b * c * d * e))"
    and "\<bar>a * b * c * d * e\<bar> \<le> 2 ^ 308"
proof -
  have 1: "\<bar>a * b\<bar> \<le> 2 ^ 106" using abs_mult_power [OF assms(1,2)] by simp
  have 2: "\<bar>a * b * c\<bar> \<le> 2 ^ 107" using abs_mult_power [OF 1 assms(3)] by simp
  have 3: "\<bar>a * b * c * d\<bar> \<le> 2 ^ 207" using abs_mult_power [OF 2 assms(4)] by simp
  show 4: "\<bar>a * b * c * d * e\<bar> \<le> 2 ^ 308" using abs_mult_power [OF 3 assms(5)] by simp
  have "fmul (Finite a) b = Finite (a * b)"
    by (rule fmul_no_overflow, rule no_overflow [OF 1]) simp
  moreover have "fmul (Finite (a * b)) c = Finite (a * b * c)"
    by (rule fmul_no_overflow, rule no_overflow [OF 2]) simp
  moreover have "fmul (Finite (a * b * c)) d = Finite (a * b * c * d)"
    by (rule fmul_no_overflow, rule no_overflow [OF 3]) simp
  moreover have "fmul (Finite (a * b * c * d)) e = Finite (a * b * c * d * e)"
    by (rule fmul_no_overflow, rule no_overflow [OF 4]) simp
  ultimately show "py_int (fmul (fmul (fmul (fmul (Finite a) b) c) d) e)
           = Inr (trunc (a * b * c * d * e))"
    by simp
qed

lemma purchase_no_overflow:
  assumes "\<bar>a\<bar> \<le> 2 ^ 308" and "\<bar>b\<bar> \<le> 2 ^ 100" and "\<bar>c\<bar> \<le> 2 ^ 5"
  shows "py_int (fsub (fmul (Finite a) b) c) = Inr (trunc (a * b - c))"
proof -
  have 1: "\<bar>a * b\<bar> \<le> 2 ^ 408" using abs_mult_power [OF assms(1,2)] by simp
  have "(2::real) ^ 5 \<le> 2 ^ 408" by (intro power_increasing) simp_all
  with assms(3) 1 have "\<bar>a * b - c\<bar> \<le> 2 ^ 408 + 2 ^ 408" by linarith
  then have 2: "\<bar>a * b - c\<bar> \<le> 2 ^ 409" by simp
  have "fmul (Finite a) b = Finite (a * b)"
    by (rule fmul_no_overflow, rule no_overflow [OF 1]) simp
  moreover have "fsub (Finite (a * b)) c = Finite (a * b - c)"
    by (rule fsub_no_overflow, rule no_overflow [OF 2]) simp
  ultimately show ?thesis by simp
qed

lemma uniform_abs:
  assumes "uniform low high g = Inr (x, g')"
  shows "\<bar>x\<bar> \<le> max \<bar>low\<bar> \<bar>high\<bar>"
proof -
  obtain u g1 where s: "random_sample g = (u, g1)" by (cases "random_sample g")
  with random_sample_range [of g] have u: "0 \<le> u" "u < 1" by simp_all
  from assms have "x = low + (high - low) * u"
    by (auto simp: uniform_def s split: if_splits)
  then have x: "x = (1 - u) * low + u * high" by (simp add: algebra_simps)
  have "\<bar>(1 - u) * low\<bar> \<le> (1 - u) * max \<bar>low\<bar> \<bar>high\<bar>"
    using u by (simp add: abs_mult mult_left_mono)
  moreover have "\<bar>u * high\<bar> \<le> u * max \<bar>low\<bar> \<bar>high\<bar>"
    using u by (simp add: abs_mult mult_left_mono)
  ultimately have "\<bar>x\<bar> \<le> (1 - u) * max \<bar>low\<bar> \<bar>high\<bar> + u * max \<bar>low\<bar> \<bar>high\<bar>"
    unfolding x by linarith
  then show ?thesis by (simp add: algebra_simps)
qed

lemma get_weather_multiplier_total:
  assumes "\<bar>get (weather_sensitivity c) 0.25\<bar> \<le> 2 ^ 100"
  shows "\<exists>w g'. get_weather_multiplier c g = Inr (w, g') \<and> \<bar>w\<bar> \<le> 2 ^ 101"
proof -
  define s where "s = get (weather_sensitivity c) 0.25"
  have s: "\<bar>s\<bar> \<le> 2 ^ 100" using assms by (simp add: s_def)
  then have "\<bar>s - (- s)\<bar> \<le> 2 ^ 101" by simp
  then have "\<not> overflows (s - (- s))" by (rule no_overflow) simp
  then have "\<exists>x g'. uniform (- s) s g = Inr (x, g')"
    by (cases "random_sample g") (simp only: uniform_def if_False prod.case, blast)
  then obtain x g' where u: "uniform (- s) s g = Inr (x, g')" by blast
  from uniform_abs [OF u] have "\<bar>x\<bar> \<le> \<bar>s\<bar>" by simp
  with s have "\<bar>1 + x\<bar> \<le> 1 + 2 ^ 100" by linarith
  moreover have "(1::real) \<le> 2 ^ 100" by simp
  ultimately have b: "\<bar>1 + x\<bar> \<le> 2 ^ 101" by simp
  have "get_weather_multiplier c g = Inr (1 + x, g')"
    using u by (simp add: get_weather_multiplier_def s_def Let_def)
  with b show ?thesis by blast
qed

lemma get_holiday_multiplier_total:
  assumes "holiday_multipliers c \<noteq> None"
    and "\<forall>hm k v. holiday_multipliers c = Some hm \<and> map_of hm k = Some v \<longrightarrow> \<bar>v\<bar> \<le> 2 ^ 100"
  shows "\<exists>h. get_holiday_multiplier d c = Inr h \<and> \<bar>h\<bar> \<le> 2 ^ 100"
proof -
  from assms(1) obtain hm where hm: "holiday_multipliers c = Some hm" by auto
  have v: "\<bar>get (map_of hm k) 1\<bar> \<le> 2 ^ 100" for k
    using assms(2) hm by (cases "map_of hm k") (auto simp: get_def)
  have "(1::real) \<le> 2 ^ 100" by simp
  then show ?thesis
    using v [of "''WOMENS_DAY''"] v [of "''VALENTINES''"] v [of "''NAURYZ''"] hm
    by (simp add: get_holiday_multiplier_def subscript_def Let_def get_def)
qed

lemma forecast_row_total:
  assumes "name c \<noteq> None" and "seasonal_multipliers c \<noteq> None"
    and "holiday_multipliers c \<noteq> None"
    and "\<forall>sm k v. seasonal_multipliers c = Some sm \<and> map_of sm k = Some v \<longrightarrow> \<bar>v\<bar> \<le> 2 ^ 100"
    and "\<forall>hm k v. holiday_multipliers c = Some hm \<and> map_of hm k = Some v \<longrightarrow> \<bar>v\<bar> \<le> 2 ^ 100"
    and "\<bar>get (weather_sensitivity c) 0.25\<bar> \<le> 2 ^ 100"
    and "\<bar>get (safety_stock_ratio c) 1.2\<bar> \<le> 2 ^ 100"
  shows "\<exists>r g'. forecast_row store_id c env d sku g = Inr (r, g') \<and> SKU r = sku"
proof -
  from assms(1,2) obtain nm sm where
    nm: "name c = Some nm" and sm: "seasonal_multipliers c = Some sm" by auto
  obtain b g1 where b: "randint (fst (base_demand_range c)) (snd (base_demand_range c)) g
      = (b, g1)" by (cases "randint (fst (base_demand_range c)) (snd (base_demand_range c)) g")
  have "fst (base_demand_range c) < snd (base_demand_range c)"
    by (simp add: base_demand_range_def Let_def)
  from randint_range [OF this, of g] b have "0 \<le> b" "b < 60"
    by (auto simp: base_demand_range_def Let_def split: if_splits)
  then have b6: "\<bar>real_of_int b\<bar> \<le> 2 ^ 6" by simp
  have "(1::real) \<le> 2 ^ 100" by simp
  then have s100: "\<bar>get (map_of sm (get_season d)) 1.0\<bar> \<le> 2 ^ 100"
    using assms(4) sm by (cases "map_of sm (get_season d)") (auto simp: get_def)
  have we1: "\<bar>if weekday d \<in> set [5, 6] then 1.3 else (1.0 :: real)\<bar> \<le> 2 ^ 1"
    by simp
  from get_holiday_multiplier_total [OF assms(3,5)] obtain h where
    h: "get_holiday_multiplier d c = Inr h" and h100: "\<bar>h\<bar> \<le> 2 ^ 100" by blast
  from get_weather_multiplier_total [OF assms(6)] obtain w g2 where
    w: "get_weather_multiplier c g1 = Inr (w, g2)" and w101: "\<bar>w\<bar> \<le> 2 ^ 101" by blast
  note dm = demand_no_overflow [OF b6 s100 we1 h100 w101]
  define fd where "fd = trunc (real_of_int b * get (map_of sm (get_season d)) 1.0
      * (if weekday d \<in> set [5, 6] then 1.3 else 1.0) * h * w)"
  have fd308: "\<bar>real_of_int fd\<bar> \<le> 2 ^ 308"
    unfolding fd_def by (rule order_trans [OF abs_trunc dm(2)])
  obtain cs g3 where cs: "randint 0 25 g2 = (cs, g3)" by (cases "randint 0 25 g2")
  from randint_range [of 0 25 g2] cs have "0 \<le> cs" "cs < 25" by simp_all
  then have cs5: "\<bar>real_of_int cs\<bar> \<le> 2 ^ 5" by simp
  note pu = purchase_no_overflow [OF fd308 assms(7) cs5]
  have "forecast_row store_id c env d sku g =
     Inr (\<lparr>Date = strftime_ymd d, Weekday_name = strftime_A env d, Store = store_id,
           Store_name = nm, SKU = sku, Demand = fd, Current_stock = cs,
           Recommended_purchase =
             max 0 (trunc (real_of_int fd * get (safety_stock_ratio c) 1.2 - real_of_int cs)),
           Priority = classify
             (max 0 (trunc (real_of_int fd * get (safety_stock_ratio c) 1.2 - real_of_int cs)))
             fd,
           Seasonal_coef = get (map_of sm (get_season d)) 1.0,
           Holiday_coef = h, Weather_coef = w\<rparr>, g3)"
    by (simp only: forecast_row_def Let_def subscript_def b sm nm h w cs dm(1) pu
        fd_def [symmetric] prod.case option.case sum.case)
  then show ?thesis by simp
qed

lemma sku_loop_total:
  assumes "name c \<noteq> None" and "seasonal_multipliers c \<noteq> None"
    and "holiday_multipliers c \<noteq> None"
    and "\<forall>sm k v. seasonal_multipliers c = Some sm \<and> map_of sm k = Some v \<longrightarrow> \<bar>v\<bar> \<le> 2 ^ 100"
    and "\<forall>hm k v. holiday_multipliers c = Some hm \<and> map_of hm k = Some v \<longrightarrow> \<bar>v\<bar> \<le> 2 ^ 100"
    and "\<bar>get (weather_sensitivity c) 0.25\<bar> \<le> 2 ^ 100"
    and "\<bar>get (safety_stock_ratio c) 1.2\<bar> \<le> 2 ^ 100"
  shows "\<exists>rs g'. sku_loop store_id c env d skus g = Inr (rs, g') \<and> map SKU rs = skus"
proof (induction skus arbitrary: g)
  case Nil
  show ?case by simp
next
  case (Cons sku skus)
  from forecast_row_total [OF assms] obtain r g1 where
    r: "forecast_row store_id c env d sku g = Inr (r, g1)" "SKU r = sku" by blast
  from Cons.IH [of g1] obtain rs g2 where
    "sku_loop store_id c env d skus g1 = Inr (rs, g2)" "map SKU rs = skus" by blast
  with r show ?case by simp
qed

lemma day_loop_total:
  assumes "name c \<noteq> None" and "seasonal_multipliers c \<noteq> None"
    and "holiday_multipliers c \<noteq> None"
    and "\<forall>sm k v. seasonal_multipliers c = Some sm \<and> map_of sm k = Some v \<longrightarrow> \<bar>v\<bar> \<le> 2 ^ 100"
    and "\<forall>hm k v. holiday_multipliers c = Some hm \<and> map_of hm k = Some v \<longrightarrow> \<bar>v\<bar> \<le> 2 ^ 100"
    and "\<bar>get (weather_sensitivity c) 0.25\<bar> \<le> 2 ^ 100"
    and "\<bar>get (safety_stock_ratio c) 1.2\<bar> \<le> 2 ^ 100"
    and "\<forall>k\<in>set ks. 1 \<le> toordinal (now env k) + int k \<and>
           toordinal (now env k) + int k \<le> max_ordinal"
  shows "\<exists>rs g'. day_loop store_id c env ks g = Inr (rs, g') \<and>
           map SKU rs = concat (replicate (length ks) (skus_of c))"
  using assms(8)
proof (induction ks arbitrary: g)
  case Nil
  show ?case by simp
next
  case (Cons k ks)
  from Cons.prems
  have d: "add_days (now env k) (int k) = Inr (fromordinal (toordinal (now env k) + int k))"
    by (simp add: add_days_def)
  from sku_loop_total [OF assms(1-7)] obtain rs1 g1 where
    rs1: "sku_loop store_id c env (fromordinal (toordinal (now env k) + int k)) (skus_of c) g
            = Inr (rs1, g1)" "map SKU rs1 = skus_of c" by blast
  from Cons.IH [of g1] Cons.prems obtain rs2 g2 where
    "day_loop store_id c env ks g1 = Inr (rs2, g2)"
    "map SKU rs2 = concat (replicate (length ks) (skus_of c))" by auto
  with d rs1 show ?case by simp
qed

lemma day_loop_overflow:
  assumes "name c \<noteq> None" and "seasonal_multipliers c \<noteq> None"
    and "holiday_multipliers c \<noteq> None"
    and "\<forall>sm k v. seasonal_multipliers c = Some sm \<and> map_of sm k = Some v \<longrightarrow> \<bar>v\<bar> \<le> 2 ^ 100"
    and "\<forall>hm k v. holiday_multipliers c = Some hm \<and> map_of hm k = Some v \<longrightarrow> \<bar>v\<bar> \<le> 2 ^ 100"
    and "\<bar>get (weather_sensitivity c) 0.25\<bar> \<le> 2 ^ 100"
    and "\<bar>get (safety_stock_ratio c) 1.2\<bar> \<le> 2 ^ 100"
    and "\<forall>k\<in>set ks. 1 \<le> toordinal (now env k) + int k \<and>
           toordinal (now env k) + int k \<le> max_ordinal"
    and "max_ordinal < toordinal (now env k) + int k"
  shows "day_loop store_id c env (ks @ k # ks') g = Inl OverflowError"
  using assms(8)
proof (induction ks arbitrary: g)
  case Nil
  from assms(9) show ?case by (simp add: add_days_def)
next
  case (Cons j ks)
  from Cons.prems
  have d: "add_days (now env j) (int j) = Inr (fromordinal (toordinal (now env j) + int j))"
    by (simp add: add_days_def)
  from sku_loop_total [OF assms(1-7)] obtain rs1 g1 where
    rs1: "sku_loop store_id c env (fromordinal (toordinal (now env j) + int j)) (skus_of c) g
            = Inr (rs1, g1)" by blast
  from Cons.IH [of g1] Cons.prems
  have "day_loop store_id c env (ks @ k # ks') g1 = Inl OverflowError"
    by auto
  with d rs1 show ?case by simp
qed

lemma day_loop_overflow_upt:
  assumes "name c \<noteq> None" and "seasonal_multipliers c \<noteq> None"
    and "holiday_multipliers c \<noteq> None"
    and "\<forall>sm k v. seasonal_multipliers c = Some sm \<and> map_of sm k = Some v \<longrightarrow> \<bar>v\<bar> \<le> 2 ^ 100"
    and "\<forall>hm k v. holiday_multipliers c = Some hm \<and> map_of hm k = Some v \<longrightarrow> \<bar>v\<bar> \<le> 2 ^ 100"
    and "\<bar>get (weather_sensitivity c) 0.25\<bar> \<le> 2 ^ 100"
    and "\<bar>get (safety_stock_ratio c) 1.2\<bar> \<le> 2 ^ 100"
    and "n < m"
    and "\<forall>k<n. 1 \<le> toordinal (now env k) + int k \<and> toordinal (now env k) + int k \<le> max_ordinal"
    and "max_ordinal < toordinal (now env n) + int n"
  shows "day_loop store_id c env [0 ..< m] g = Inl OverflowError"
proof -
  have "[0 ..< m] = [0 ..< n + (m - n)]" using assms(8) by simp
  also have "\<dots> = [0 ..< n] @ [n ..< n + (m - n)]" by (rule upt_add_eq_append) simp
  also have "[n ..< n + (m - n)] = n # [Suc n ..< n + (m - n)]"
    by (rule upt_conv_Cons) (use assms(8) in simp)
  finally have s: "[0 ..< m] = [0 ..< n] @ n # [Suc n ..< n + (m - n)]" .
  have a: "\<forall>k\<in>set [0 ..< n]. 1 \<le> toordinal (now env k) + int k \<and>
             toordinal (now env k) + int k \<le> max_ordinal"
    using assms(9) by simp
  show ?thesis
    unfolding s by (rule day_loop_overflow [OF assms(1-7) a assms(10)])
qed

lemma days_before_year_nonneg:
  assumes "1 \<le> y"
  shows "0 \<le> days_before_year y"
proof -
  define z where "z = y - 1"
  have z: "0 \<le> z" using assms by (simp add: z_def)
  have "z div 100 \<le> z div 4" using z by (intro zdiv_mono2) simp_all
  moreover have "0 \<le> z div 400" using z by simp
  moreover have "0 \<le> z * 365" using z by simp
  ultimately have "0 \<le> z * 365 + z div 4 - z div 100 + z div 400" by linarith
  then show ?thesis by (simp add: days_before_year_def z_def Let_def)
qed

lemma days_before_month_nonneg: "1 \<le> m \<Longrightarrow> m \<le> 12 \<Longrightarrow> 0 \<le> days_before_month y m"
proof -
  assume "1 \<le> m" "m \<le> 12"
  then have "m = 1 \<or> m = 2 \<or> m = 3 \<or> m = 4 \<or> m = 5 \<or> m = 6 \<or> m = 7 \<or> m = 8 \<or> m = 9
      \<or> m = 10 \<or> m = 11 \<or> m = 12" by arith
  then show ?thesis
    by (elim disjE) (simp_all add: days_before_month_def days_before_month_of_def)
qed

lemma valid_date_toordinal: "valid_date d \<Longrightarrow> 1 \<le> toordinal d"
  using days_before_year_nonneg [of "year d"] days_before_month_nonneg [of "month d" "year d"]
  by (simp add: valid_date_def toordinal_def)

lemma first_date_overflow:
  assumes "\<not> (\<forall>k<m. toordinal (now env k) + int k \<le> max_ordinal)"
  obtains n where "n < m" and "max_ordinal < toordinal (now env n) + int n"
    and "\<forall>k<n. toordinal (now env k) + int k \<le> max_ordinal"
proof -
  define P where "P k \<longleftrightarrow> k < m \<and> max_ordinal < toordinal (now env k) + int k" for k
  from assms have "\<exists>k. P k" by (auto simp: P_def not_le)
  then obtain n where n: "P n" and least: "\<forall>k<n. \<not> P k"
    using exists_least_iff [of P] by blast
  from n have "n < m" "max_ordinal < toordinal (now env n) + int n" by (simp_all add: P_def)
  moreover from least \<open>n < m\<close> have "\<forall>k<n. toordinal (now env k) + int k \<le> max_ordinal"
    by (auto simp: P_def not_less)
  ultimately show ?thesis by (rule that)
qed

lemma almaty_1_bounded:
  "\<forall>sm k v. seasonal_multipliers almaty_1 = Some sm \<and> map_of sm k = Some v \<longrightarrow> \<bar>v\<bar> \<le> 2 ^ 100"
  "\<forall>hm k v. holiday_multipliers almaty_1 = Some hm \<and> map_of hm k = Some v \<longrightarrow> \<bar>v\<bar> \<le> 2 ^ 100"
  "\<bar>get (weather_sensitivity almaty_1) 0.25\<bar> \<le> 2 ^ 100"
  "\<bar>get (safety_stock_ratio almaty_1) 1.2\<bar> \<le> 2 ^ 100"
  by (auto simp: almaty_1_fields get_def split: if_splits)

text \<open>
  Claim C1 says that a known, active store and any non-negative number of days give
  exactly six rows per day. With the clock at 2025-01-01 and three million days the loop
  reaches a date after 9999-12-31 (at day 2912808) and \<open>OverflowError\<close> leaves the call.
\<close>

theorem forecast_length_counterexample:
  "map_of (stores default_manager) ''almaty_1'' = Some 0 \<and>
   active (heap default_manager 0) = Some True \<and> (0::int) \<le> 3000000 \<and>
   get_store_forecast default_manager new_year_env half_tape ''almaty_1'' (Some 3000000)
     = Inl OverflowError"
proof -
  have t: "toordinal (now new_year_env k) = 739252" for k
    by (simp add: new_year_env_def toordinal_def days_before_year_def days_before_month_def
        days_before_month_of_def is_leap_def)
  have n: "(2912808::nat) < nat 3000000" by simp
  have a: "\<forall>k<2912808. 1 \<le> toordinal (now new_year_env k) + int k \<and>
             toordinal (now new_year_env k) + int k \<le> max_ordinal"
    by (simp add: t max_ordinal_def)
  have b: "max_ordinal < toordinal (now new_year_env 2912808) + int 2912808"
    by (simp add: t max_ordinal_def)
  have c: "name almaty_1 \<noteq> None" "seasonal_multipliers almaty_1 \<noteq> None"
    "holiday_multipliers almaty_1 \<noteq> None"
    by (simp_all add: almaty_1_fields)
  have "get_store_forecast default_manager new_year_env half_tape ''almaty_1''
      (Some 3000000)
      = day_loop ''almaty_1'' almaty_1 new_year_env [0 ..< nat 3000000] half_tape"
    by (simp only: get_store_forecast_def generate_store_specific_forecast_def
        default_manager_almaty_1 almaty_1_fields subscript_def get_def option.case
        Let_def sum.case not_True_eq_False if_False)
  also have "\<dots> = Inl OverflowError"
    by (rule day_loop_overflow_upt [OF c almaty_1_bounded n a b])
  finally have f: "get_store_forecast default_manager new_year_env half_tape ''almaty_1''
      (Some 3000000) = Inl OverflowError" .
  show ?thesis
    using f by (simp add: default_manager_almaty_1 almaty_1_fields)
qed

text \<open>
  Claim C1, amended. Take a known, active store whose dict has the keys the generator
  subscripts (\<open>name\<close>, \<open>seasonal_multipliers\<close>, \<open>holiday_multipliers\<close>: every default and
  every registered store has them) and whose multipliers, weather sensitivity and safety
  stock ratio are at most \<open>2\<^sup>1\<^sup>0\<^sup>0\<close> in magnitude (so that the float arithmetic stays
  finite), and a non-negative number of days. If each forecast date, the clock's date
  plus the day number, is not after 9999-12-31, the forecast returns exactly \<open>days\<close>
  times the size of the assortment rows, namely the assortment once per day; otherwise
  the call raises \<open>OverflowError\<close>. The assortment is the list of six SKUs that the
  store's type selects: the premium list for \<open>premium\<close>, the mass market list for
  \<open>mass_market\<close> or no type, the business list for any other type.
\<close>

theorem forecast_length:
  assumes "map_of (stores st) store_id = Some ref"
    and "active (heap st ref) \<noteq> Some False"
    and "0 \<le> days"
    and "name (heap st ref) \<noteq> None" and "seasonal_multipliers (heap st ref) \<noteq> None"
    and "holiday_multipliers (heap st ref) \<noteq> None"
    and "\<forall>sm k v. seasonal_multipliers (heap st ref) = Some sm \<and> map_of sm k = Some v
           \<longrightarrow> \<bar>v\<bar> \<le> 2 ^ 100"
    and "\<forall>hm k v. holiday_multipliers (heap st ref) = Some hm \<and> map_of hm k = Some v
           \<longrightarrow> \<bar>v\<bar> \<le> 2 ^ 100"
    and "\<bar>get (weather_sensitivity (heap st ref)) 0.25\<bar> \<le> 2 ^ 100"
    and "\<bar>get (safety_stock_ratio (heap st ref)) 1.2\<bar> \<le> 2 ^ 100"
    and "\<forall>k < nat days. valid_date (now env k)"
  shows "(if \<forall>k < nat days. toordinal (now env k) + int k \<le> max_ordinal
          then \<exists>rows g'.
                 get_store_forecast st env g store_id (Some days) = Inr (rows, g') \<and>
                 int (length rows) = days * int (length (skus_of (heap st ref))) \<and>
                 map SKU rows = concat (replicate (nat days) (skus_of (heap st ref)))
          else get_store_forecast st env g store_id (Some days) = Inl OverflowError) \<and>
         length (skus_of (heap st ref)) = 6 \<and>
         skus_of (heap st ref) =
           (if type (heap st ref) = Some ''premium'' then premium_skus
            else if type (heap st ref) = None \<or> type (heap st ref) = Some ''mass_market''
              then mass_market_skus
            else business_skus)"
proof -
  define c where "c = heap st ref"
  note cfg = assms(4-10) [folded c_def]
  have a: "get (active c) True"
    using assms(2) by (cases "active c") (auto simp: get_def c_def)
  have f: "get_store_forecast st env g store_id (Some days)
             = day_loop store_id c env [0 ..< nat days] g"
    using a by (simp add: get_store_forecast_def generate_store_specific_forecast_def
        assms(1) subscript_def c_def)
  have low: "1 \<le> toordinal (now env k) + int k" if "k < nat days" for k
    using valid_date_toordinal [of "now env k"] assms(11) that by simp
  have "if \<forall>k < nat days. toordinal (now env k) + int k \<le> max_ordinal
          then \<exists>rows g'.
                 get_store_forecast st env g store_id (Some days) = Inr (rows, g') \<and>
                 int (length rows) = days * int (length (skus_of c)) \<and>
                 map SKU rows = concat (replicate (nat days) (skus_of c))
          else get_store_forecast st env g store_id (Some days) = Inl OverflowError"
  proof (cases "\<forall>k < nat days. toordinal (now env k) + int k \<le> max_ordinal")
    case True
    with low have r: "\<forall>k\<in>set [0 ..< nat days]. 1 \<le> toordinal (now env k) + int k \<and>
             toordinal (now env k) + int k \<le> max_ordinal"
      by simp
    from day_loop_total [OF cfg r] obtain rows g' where
      l: "day_loop store_id c env [0 ..< nat days] g = Inr (rows, g')"
        "map SKU rows = concat (replicate (length [0 ..< nat days]) (skus_of c))"
      by blast
    from l(2) have m: "map SKU rows = concat (replicate (nat days) (skus_of c))" by simp
    have "length rows = length (map SKU rows)" by simp
    also have "\<dots> = nat days * length (skus_of c)"
      unfolding m by (simp add: length_concat sum_list_replicate)
    finally have "int (length rows) = days * int (length (skus_of c))"
      using assms(3) by simp
    with l(1) m f True show ?thesis by auto
  next
    case False
    then obtain n where n: "n < nat days" "max_ordinal < toordinal (now env n) + int n"
      "\<forall>k<n. toordinal (now env k) + int k \<le> max_ordinal"
      by (rule first_date_overflow)
    from n(1,3) low have "\<forall>k<n. 1 \<le> toordinal (now env k) + int k \<and>
        toordinal (now env k) + int k \<le> max_ordinal"
      by auto
    from day_loop_overflow_upt [OF cfg n(1) this n(2)] f False show ?thesis by simp
  qed
  then show ?thesis
    using length_skus_of [of c] skus_of_type [of c] unfolding c_def by blast
qed

theorem forecast_length_witness:
  "map_of (stores default_manager) ''almaty_1'' = Some 0 \<and>
   active (heap default_manager 0) = Some True \<and>
   type (heap default_manager 0) = Some ''premium'' \<and>
   valid_date (now friday_env 0) \<and>
   toordinal (now friday_env 0) + int 0 \<le> max_ordinal \<and>
   (\<exists>rows g'.
      get_store_forecast default_manager friday_env half_tape ''almaty_1'' (Some 1)
        = Inr (rows, g') \<and>
      int (length rows) = 1 * int (length (skus_of (heap default_manager 0))) \<and>
      map SKU rows = concat (replicate (nat 1) (skus_of (heap default_manager 0)))) \<and>
   length (skus_of (heap default_manager 0)) = 6 \<and>
   skus_of (heap default_manager 0) = premium_skus"
proof -
  have v: "valid_date (now friday_env 0)"
    by (simp add: friday_env_def valid_date_def days_in_month_def days_in_month_of_def)
  have o: "toordinal (now friday_env 0) + int 0 \<le> max_ordinal"
    by (simp add: friday_env_def toordinal_friday max_ordinal_def)
  have r: "\<forall>k < nat 1. valid_date (now friday_env k)"
    using v by simp
  have r': "\<forall>k < nat 1. toordinal (now friday_env k) + int k \<le> max_ordinal"
    using o by simp
  have a: "active (heap default_manager 0) \<noteq> Some False"
    "name (heap default_manager 0) \<noteq> None"
    "seasonal_multipliers (heap default_manager 0) \<noteq> None"
    "holiday_multipliers (heap default_manager 0) \<noteq> None"
    by (simp_all add: default_manager_almaty_1 almaty_1_fields)
  have t: "active (heap default_manager 0) = Some True"
    "type (heap default_manager 0) = Some ''premium''"
    by (simp_all add: default_manager_almaty_1 almaty_1_fields)
  have z: "(0::int) \<le> 1" by simp
  note b = almaty_1_bounded [folded default_manager_almaty_1(2)]
  note f = forecast_length [OF default_manager_almaty_1(1) a(1) z a(2-4) b r, of half_tape]
  have e: "\<exists>rows g'.
      get_store_forecast default_manager friday_env half_tape ''almaty_1'' (Some 1)
        = Inr (rows, g') \<and>
      int (length rows) = 1 * int (length (skus_of (heap default_manager 0))) \<and>
      map SKU rows = concat (replicate (nat 1) (skus_of (heap default_manager 0)))"
    using f [THEN conjunct1] r' by (simp only: if_P)
  have p: "skus_of (heap default_manager 0) = premium_skus"
    using f [THEN conjunct2, THEN conjunct2] t(2) by (simp only: if_P)
  from e p f [THEN conjunct2, THEN conjunct1] default_manager_almaty_1(1) t v o
  show ?thesis by blast
qed


subsection \<open>Reproducibility\<close>

lemma saturday_forecast_row:
  "forecast_row ''almaty_1'' almaty_1 saturday_env \<lparr>year = 2025, month = 3, day = 8\<rparr> sku
     \<lparr>tape = (\<lambda>k. 1 / 2), pos = p\<rparr>
   = Inr (saturday_row sku, \<lparr>tape = (\<lambda>k. 1 / 2), pos = Suc (Suc (Suc p))\<rparr>)"
proof -
  have t: "toordinal \<lparr>year = 2025, month = 3, day = 8\<rparr> = 739318"
    by (simp add: toordinal_def days_before_year_def days_before_month_def
        days_before_month_of_def is_leap_def)
  have wd: "weekday \<lparr>year = 2025, month = 3, day = 8\<rparr> = 5"
    by (simp add: weekday_def t)
  have s: "strftime_ymd \<lparr>year = 2025, month = 3, day = 8\<rparr> = ''2025-03-08''"
    "strftime_A saturday_env \<lparr>year = 2025, month = 3, day = 8\<rparr> = ''Saturday''"
    "strftime_md \<lparr>year = 2025, month = 3, day = 8\<rparr> = ''03-08''"
    by (simp_all add: strftime_ymd_def strftime_md_def strftime_Y_def pad2_def digit_def
        strftime_A_def wd saturday_env_def c_day_name_def)
  have h: "get_holiday_multiplier \<lparr>year = 2025, month = 3, day = 8\<rparr> almaty_1 = Inr 4.5"
    by (simp add: get_holiday_multiplier_def almaty_1_fields subscript_def s get_def)
  have "\<not> overflows (0.3 - (- 0.3))" by (rule small_no_overflow) simp
  then have w: "get_weather_multiplier almaty_1 \<lparr>tape = (\<lambda>k. 1 / 2), pos = q\<rparr>
             = Inr (1, \<lparr>tape = (\<lambda>k. 1 / 2), pos = Suc q\<rparr>)" for q
    by (simp add: get_weather_multiplier_def uniform_half Let_def almaty_1_fields get_def)
  show ?thesis
    by (simp add: forecast_row_def Let_def h w randint_half base_demand_range_def
        almaty_1_fields wd s get_def subscript_def get_season_def small_result trunc_def
        classify_def saturday_row_def)
qed

lemma saturday_forecast:
  "get_store_forecast default_manager saturday_env half_tape ''almaty_1'' (Some 1)
     = Inr (map saturday_row premium_skus, half_tape\<lparr>pos := 18\<rparr>)"
proof -
  have t: "toordinal \<lparr>year = 2025, month = 3, day = 8\<rparr> = 739318"
    by (simp add: toordinal_def days_before_year_def days_before_month_def
        days_before_month_of_def is_leap_def)
  have f: "fromordinal 739318 = \<lparr>year = 2025, month = 3, day = 8\<rparr>"
    by (simp add: fromordinal_def days_before_month_of_def days_in_month_of_def Let_def)
  have d: "add_days (now saturday_env 0) (int 0) = Inr \<lparr>year = 2025, month = 3, day = 8\<rparr>"
    by (simp add: add_days_def saturday_env_def t f max_ordinal_def)
  have s: "skus_of almaty_1 = premium_skus"
    by (simp add: skus_of_def almaty_1_fields get_def)
  have l: "sku_loop ''almaty_1'' almaty_1 saturday_env \<lparr>year = 2025, month = 3, day = 8\<rparr>
             premium_skus \<lparr>tape = (\<lambda>k. 1 / 2), pos = 0\<rparr>
           = Inr (map saturday_row premium_skus, \<lparr>tape = (\<lambda>k. 1 / 2), pos = 18\<rparr>)"
    by (simp add: premium_skus_def saturday_forecast_row)
  have "day_loop ''almaty_1'' almaty_1 saturday_env [0] \<lparr>tape = (\<lambda>k. 1 / 2), pos = 0\<rparr>
           = Inr (map saturday_row premium_skus, \<lparr>tape = (\<lambda>k. 1 / 2), pos = 18\<rparr>)"
    using d by (simp add: s l)
  then show ?thesis
    by (simp add: get_store_forecast_def generate_store_specific_forecast_def
        default_manager_almaty_1 almaty_1_fields subscript_def get_def half_tape_def)
qed

lemma random_sample_same:
  assumes "same_stream g1 g2"
  shows "rel_prod (=) same_stream (random_sample g1) (random_sample g2)"
  using assms by (simp add: random_sample_def same_stream_def)

lemma randint_same:
  "rel_fun same_stream (rel_prod (=) same_stream) (randint low high) (randint low high)"
  by (auto simp: rel_fun_def randint_def split: prod.splits dest: random_sample_same)

lemma uniform_same:
  "rel_fun same_stream (rel_sum (=) (rel_prod (=) same_stream))
     (uniform low high) (uniform low high)"
  by (auto simp: rel_fun_def uniform_def split: prod.splits dest: random_sample_same)

lemma get_weather_multiplier_same:
  "rel_fun same_stream (rel_sum (=) (rel_prod (=) same_stream))
     (get_weather_multiplier c) (get_weather_multiplier c)"
  unfolding get_weather_multiplier_def Let_def
  supply [transfer_rule] = uniform_same
  by transfer_prover

lemma forecast_row_same:
  "rel_fun same_stream (rel_sum (=) (rel_prod (=) same_stream))
     (forecast_row store_id c env d sku) (forecast_row store_id c env d sku)"
  unfolding forecast_row_def Let_def
  supply [transfer_rule] = randint_same get_weather_multiplier_same
  by transfer_prover

lemma sku_loop_same:
  "rel_fun same_stream (rel_sum (=) (rel_prod (=) same_stream))
     (sku_loop store_id c env d skus) (sku_loop store_id c env d skus)"
proof (induction skus)
  case Nil
  show ?case by (simp add: rel_fun_def)
next
  case (Cons sku skus)
  show ?case
    unfolding rel_fun_def
  proof (intro allI impI)
    fix g1 g2
    assume "same_stream g1 g2"
    with forecast_row_same [of store_id c env d sku]
    have "rel_sum (=) (rel_prod (=) same_stream)
            (forecast_row store_id c env d sku g1) (forecast_row store_id c env d sku g2)"
      by (simp add: rel_fun_def)
    then consider
      (raised) e where "forecast_row store_id c env d sku g1 = Inl e"
        and "forecast_row store_id c env d sku g2 = Inl e"
      | (returned) r h1 h2 where "forecast_row store_id c env d sku g1 = Inr (r, h1)"
        and "forecast_row store_id c env d sku g2 = Inr (r, h2)" and "same_stream h1 h2"
      by (auto simp add: rel_sum.simps)
    then show "rel_sum (=) (rel_prod (=) same_stream)
            (sku_loop store_id c env d (sku # skus) g1)
            (sku_loop store_id c env d (sku # skus) g2)"
    proof cases
      case raised
      then show ?thesis by simp
    next
      case returned
      from Cons.IH returned(3)
      have "rel_sum (=) (rel_prod (=) same_stream)
              (sku_loop store_id c env d skus h1) (sku_loop store_id c env d skus h2)"
        by (simp add: rel_fun_def)
      with returned show ?thesis
        by (auto simp add: rel_sum.simps)
    qed
  qed
qed

lemma day_loop_same:
  "rel_fun same_stream (rel_sum (=) (rel_prod (=) same_stream))
     (day_loop store_id c env ks) (day_loop store_id c env ks)"
proof (induction ks)
  case Nil
  show ?case by (simp add: rel_fun_def)
next
  case (Cons k ks)
  show ?case
    unfolding rel_fun_def
  proof (intro allI impI)
    fix g1 g2
    assume g: "same_stream g1 g2"
    show "rel_sum (=) (rel_prod (=) same_stream)
            (day_loop store_id c env (k # ks) g1) (day_loop store_id c env (k # ks) g2)"
    proof (cases "add_days (now env k) (int k)")
      case (Inl e)
      then show ?thesis by simp
    next
      case (Inr d)
      from sku_loop_same [of store_id c env d "skus_of c"] g
      have "rel_sum (=) (rel_prod (=) same_stream)
              (sku_loop store_id c env d (skus_of c) g1)
              (sku_loop store_id c env d (skus_of c) g2)"
        by (simp add: rel_fun_def)
      then consider
        (raised) e where "sku_loop store_id c env d (skus_of c) g1 = Inl e"
          and "sku_loop store_id c env d (skus_of c) g2 = Inl e"
        | (returned) rs h1 h2 where "sku_loop store_id c env d (skus_of c) g1 = Inr (rs, h1)"
          and "sku_loop store_id c env d (skus_of c) g2 = Inr (rs, h2)"
          and "same_stream h1 h2"
        by (auto simp add: rel_sum.simps)
      then show ?thesis
      proof cases
        case raised
        with Inr show ?thesis by simp
      next
        case returned
        from Cons.IH returned(3)
        have "rel_sum (=) (rel_prod (=) same_stream)
                (day_loop store_id c env ks h1) (day_loop store_id c env ks h2)"
          by (simp add: rel_fun_def)
        with Inr returned show ?thesis
          by (auto simp add: rel_sum.simps)
      qed
    qed
  qed
qed

lemma forecast_row_env:
  assumes "day_name env1 = day_name env2"
  shows "forecast_row store_id c env1 d sku g = forecast_row store_id c env2 d sku g"
  by (simp only: forecast_row_def strftime_A_def assms)

lemma sku_loop_env:
  "day_name env1 = day_name env2 \<Longrightarrow>
     sku_loop store_id c env1 d skus g = sku_loop store_id c env2 d skus g"
  by (induction skus arbitrary: g)
    (simp_all add: forecast_row_env [of env1 env2] split: sum.splits prod.splits)

lemma day_loop_env:
  assumes "day_name env1 = day_name env2"
  shows "\<forall>k\<in>set ks. now env1 k = now env2 k \<Longrightarrow>
           day_loop store_id c env1 ks g = day_loop store_id c env2 ks g"
proof (induction ks arbitrary: g)
  case Nil
  show ?case by simp
next
  case (Cons k ks)
  then have "now env1 k = now env2 k"
    and "\<And>g'. day_loop store_id c env1 ks g' = day_loop store_id c env2 ks g'"
    by simp_all
  then show ?case
    by (simp add: sku_loop_env [OF assms] split: sum.splits prod.splits)
qed

text \<open>
  Claim C8 says that two forecasts with the same arguments and the same seed are equal.
  The forecast also reads the clock: the same store, the same day count and the same
  generator give the Friday rows on 2025-03-07 and other rows (dates, holiday factor,
  demand) on 2025-03-08.
\<close>

theorem forecast_deterministic_counterexample:
  "get_store_forecast default_manager friday_env half_tape ''almaty_1'' (Some 1)
     \<noteq> get_store_forecast default_manager saturday_env half_tape ''almaty_1'' (Some 1)"
proof -
  have "friday_row 26 Medium Pion_import \<noteq> saturday_row Pion_import"
    by (simp add: friday_row_def saturday_row_def)
  then have "map (friday_row 26 Medium) premium_skus \<noteq> map saturday_row premium_skus"
    by (simp add: premium_skus_def)
  then show ?thesis
    by (simp only: default_friday_forecast saturday_forecast) simp
qed

text \<open>
  Claim C8, amended. The forecast reads four things from outside its arguments: the
  registry, the generator, the clock and the weekday names of the locale; they are the
  explicit inputs of the embedded function. Two forecasts for the same store id and day
  count have the same outcome (the same rows and again the same seed, or the same
  exception) whenever the two registries hold the same configuration for that store (or
  both none), the two generators have the same seed, the two locales have the same
  weekday names and the two clocks give the same readings in the passes of the day
  loop, that is, for the day numbers below the day count (the store's horizon when no
  count is given). Whatever else differs between the two calls (other stores, the
  samples already drawn, later clock readings) does not matter.
\<close>

theorem forecast_deterministic:
  assumes "map_option (heap st1) (map_of (stores st1) store_id)
             = map_option (heap st2) (map_of (stores st2) store_id)"
    and "same_stream g1 g2"
    and "day_name env1 = day_name env2"
    and "\<forall>c k. map_option (heap st1) (map_of (stores st1) store_id) = Some c \<and>
           k < nat (case forecast_days of
                      None \<Rightarrow> get (forecast_horizon_days c) 7 | Some n \<Rightarrow> n)
           \<longrightarrow> now env1 k = now env2 k"
  shows "rel_sum (=) (\<lambda>(rows1, g1') (rows2, g2'). rows1 = rows2 \<and> same_stream g1' g2')
           (get_store_forecast st1 env1 g1 store_id forecast_days)
           (get_store_forecast st2 env2 g2 store_id forecast_days)"
proof (cases "map_of (stores st1) store_id")
  case None
  with assms(1) have "map_of (stores st2) store_id = None" by simp
  with None show ?thesis by (simp add: get_store_forecast_def)
next
  case (Some r1)
  with assms(1) obtain r2 where r2: "map_of (stores st2) store_id = Some r2"
    and c: "heap st2 r2 = heap st1 r1" by (cases "map_of (stores st2) store_id") auto
  define c1 where "c1 = heap st1 r1"
  define n where "n = (case forecast_days of
                         None \<Rightarrow> get (forecast_horizon_days c1) 7 | Some n \<Rightarrow> n)"
  show ?thesis
  proof (cases "get (active c1) True")
    case False
    with Some r2 c assms(2) show ?thesis
      by (simp add: get_store_forecast_def c1_def)
  next
    case True
    from assms(4) Some have "\<forall>k\<in>set [0 ..< nat n]. now env1 k = now env2 k"
      unfolding n_def c1_def by simp
    from day_loop_env [OF assms(3) this]
    have e: "day_loop store_id c1 env1 [0 ..< nat n] g1
               = day_loop store_id c1 env2 [0 ..< nat n] g1" .
    from day_loop_same [of store_id c1 env2 "[0 ..< nat n]"] assms(2)
    have "rel_sum (=) (rel_prod (=) same_stream)
            (day_loop store_id c1 env2 [0 ..< nat n] g1)
            (day_loop store_id c1 env2 [0 ..< nat n] g2)"
      by (simp add: rel_fun_def)
    then have "rel_sum (=) (\<lambda>(rows1, g1') (rows2, g2'). rows1 = rows2 \<and> same_stream g1' g2')
            (day_loop store_id c1 env1 [0 ..< nat n] g1)
            (day_loop store_id c1 env2 [0 ..< nat n] g2)"
      unfolding e by (auto simp: rel_sum.simps)
    moreover have "get_store_forecast st1 env1 g1 store_id forecast_days
        = day_loop store_id c1 env1 [0 ..< nat n] g1"
      using True Some
      unfolding get_store_forecast_def generate_store_specific_forecast_def
        subscript_def c1_def n_def Let_def
      by simp
    moreover have "get_store_forecast st2 env2 g2 store_id forecast_days
        = day_loop store_id c1 env2 [0 ..< nat n] g2"
      using True r2 c
      unfolding get_store_forecast_def generate_store_specific_forecast_def
        subscript_def c1_def n_def Let_def
      by (simp split: option.split)
    ultimately show ?thesis by simp
  qed
qed


theorem forecast_deterministic_witness:
  "default_manager \<noteq> closed_manager \<and>
   now friday_env 1 \<noteq> now midnight_env 1 \<and>
   (\<exists>g'. get_store_forecast closed_manager midnight_env half_tape ''almaty_1'' (Some 1)
            = Inr (map (friday_row 26 Medium) premium_skus, g') \<and>
          same_stream (half_tape\<lparr>pos := 18\<rparr>) g')"
proof -
  have a: "map_option (heap default_manager) (map_of (stores default_manager) ''almaty_1'')
             = map_option (heap closed_manager) (map_of (stores closed_manager) ''almaty_1'')"
    by (simp add: default_manager_def closed_manager_def)
  have b: "same_stream half_tape half_tape"
    by (simp add: same_stream_def)
  have c: "day_name friday_env = day_name midnight_env"
    by (simp add: friday_env_def midnight_env_def)
  have d: "\<forall>c k. map_option (heap default_manager)
                    (map_of (stores default_manager) ''almaty_1'') = Some c \<and>
             k < nat (case Some 1 of
                        None \<Rightarrow> get (forecast_horizon_days c) 7 | Some n \<Rightarrow> n)
             \<longrightarrow> now friday_env k = now midnight_env k"
    by (simp add: friday_env_def midnight_env_def)
  have "heap default_manager 1 \<noteq> heap closed_manager 1"
    by (simp add: default_manager_def closed_manager_def almaty_2_def)
  then have e: "default_manager \<noteq> closed_manager"
    by auto
  have f: "now friday_env 1 \<noteq> now midnight_env 1"
    by (simp add: friday_env_def midnight_env_def)
  from forecast_deterministic [OF a b c d]
  have "\<exists>g'. get_store_forecast closed_manager midnight_env half_tape ''almaty_1'' (Some 1)
            = Inr (map (friday_row 26 Medium) premium_skus, g') \<and>
          same_stream (half_tape\<lparr>pos := 18\<rparr>) g'"
    by (simp only: default_friday_forecast) (auto simp add: rel_sum.simps)
  with e f show ?thesis
    by (intro conjI)
qed


subsection \<open>Consolidation\<close>

















end
